theory Spec2Isabelle
  imports Main "HOL-Library.Multiset" "HOL-Library.AList"
begin

section \<open>Strings\<close>

text \<open>
  A Python \<open>str\<close> is a sequence of Unicode code points and \<open>len\<close> counts code points,
  so a string is a list of code-point numbers. ASCII literals of the source are written
  through \<open>ascii\<close>; the other literals are spelled out as code points.
\<close>

type_synonym ustr = "nat list"

definition ascii :: "string \<Rightarrow> ustr" where
  "ascii s = map of_char s"

text \<open>The characters for which \<open>str.isspace\<close> holds; \<open>\s\<close> of \<open>re\<close> and \<open>str.strip\<close> use
  the same set.\<close>

definition isspace :: "nat \<Rightarrow> bool" where
  "isspace c \<longleftrightarrow>
     (9 \<le> c \<and> c \<le> 13) \<or> (28 \<le> c \<and> c \<le> 32) \<or> c = 133 \<or> c = 160 \<or> c = 5760 \<or>
     (8192 \<le> c \<and> c \<le> 8202) \<or> c = 8232 \<or> c = 8233 \<or> c = 8239 \<or> c = 8287 \<or> c = 12288"

definition strip :: "ustr \<Rightarrow> ustr" where
  "strip s = rev (dropWhile isspace (rev (dropWhile isspace s)))"

text \<open>\<open>'\n\n'.join(parts)\<close>\<close>

fun join_nn :: "ustr list \<Rightarrow> ustr" where
  "join_nn [] = []"
| "join_nn [x] = x"
| "join_nn (x # y # ys) = x @ [10, 10] @ join_nn (y # ys)"

text \<open>\<open>s.find(sub, start)\<close>: the lowest index at or after \<open>start\<close> where \<open>sub\<close> occurs,
  \<open>-1\<close> when there is none. A negative \<open>start\<close> counts from the end.\<close>

fun first_occ :: "ustr \<Rightarrow> ustr \<Rightarrow> nat option" where
  "first_occ sub [] = (if sub = [] then Some 0 else None)"
| "first_occ sub (c # cs) =
     (if take (length sub) (c # cs) = sub then Some 0
      else map_option Suc (first_occ sub cs))"

definition py_find :: "ustr \<Rightarrow> ustr \<Rightarrow> int \<Rightarrow> int" where
  "py_find s sub start =
     (let n = int (length s);
          b = (if start < 0 then max 0 (start + n) else start)
      in if b > n then - 1
         else (case first_occ sub (drop (nat b) s) of
                 None \<Rightarrow> - 1
               | Some i \<Rightarrow> b + int i))"

text \<open>\<open>s.rfind(sub)\<close>: the highest index where \<open>sub\<close> occurs, \<open>-1\<close> when there is none.\<close>

fun last_occ :: "ustr \<Rightarrow> ustr \<Rightarrow> nat option" where
  "last_occ sub [] = (if sub = [] then Some 0 else None)"
| "last_occ sub (c # cs) =
     (case last_occ sub cs of
        Some i \<Rightarrow> Some (Suc i)
      | None \<Rightarrow> (if take (length sub) (c # cs) = sub then Some 0 else None))"

definition py_rfind :: "ustr \<Rightarrow> ustr \<Rightarrow> int" where
  "py_rfind s sub = (case last_occ sub s of None \<Rightarrow> - 1 | Some i \<Rightarrow> int i)"

text \<open>\<open>s[a:b]\<close> for \<open>a \<ge> 0\<close> and \<open>b \<ge> 0\<close>: both ends are clamped to the string, and the
  slice is empty when \<open>a \<ge> b\<close>.\<close>

definition py_slice :: "ustr \<Rightarrow> int \<Rightarrow> int \<Rightarrow> ustr" where
  "py_slice s a b = take (nat b - nat a) (drop (nat a) s)"

text \<open>\<open>str(n)\<close> of a non-negative integer.\<close>

fun str_of_nat :: "nat \<Rightarrow> ustr" where
  "str_of_nat n = (if n < 10 then [48 + n] else str_of_nat (n div 10) @ [48 + n mod 10])"

declare str_of_nat.simps [simp del]

section \<open>core/chunker.py\<close>

record chunker =
  chunk_size :: int
  overlap_size :: int
  min_chunk_size :: int

text \<open>The dictionary built by \<open>_create_chunk_dict\<close>; its key \<open>'text'\<close> is the field
  \<open>ctext\<close>.\<close>

record chunk =
  chunk_id :: ustr
  file_id :: ustr
  chunk_index :: nat
  ctext :: ustr
  start_char :: int
  end_char :: int
  token_count :: int

text \<open>
  \<open>int(len(text) * 0.75)\<close>: \<open>0.75\<close> is a binary fraction, the product is exact in double
  precision for every length a string can have, and \<open>int\<close> truncates.
\<close>

definition estimate_tokens :: "ustr \<Rightarrow> int" where
  "estimate_tokens t = (int (length t) * 3) div 4"

text \<open>
  \<open>re.split(r'\n\s*\n', text)\<close>. At a position holding \<open>\n\<close> the greedy \<open>\s*\<close> takes the
  whole run of whitespace that follows and backtracks to the last \<open>\n\<close> of that run;
  \<open>para_sep_len\<close> is the length of the match at the head of the string, if there is one.
\<close>

definition para_sep_len :: "ustr \<Rightarrow> nat option" where
  "para_sep_len s =
     (case s of
        [] \<Rightarrow> None
      | c # cs \<Rightarrow>
          if c \<noteq> 10 then None
          else (let ws = takeWhile isspace cs
                in if 10 \<in> set ws
                   then Some (Suc (length ws - length (takeWhile (\<lambda>x. x \<noteq> 10) (rev ws))))
                   else None))"

function re_split_paragraphs :: "ustr \<Rightarrow> ustr \<Rightarrow> ustr list" where
  "re_split_paragraphs acc [] = [rev acc]"
| "re_split_paragraphs acc (c # cs) =
     (case para_sep_len (c # cs) of
        Some n \<Rightarrow> rev acc # re_split_paragraphs [] (drop n (c # cs))
      | None \<Rightarrow> re_split_paragraphs (c # acc) cs)"
  by pat_completeness auto

termination re_split_paragraphs
proof (relation "measure (\<lambda>(acc, s). length s)")
  show "wf (measure (\<lambda>(acc, s). length s))" by simp
next
  fix acc :: ustr and c cs n
  assume "para_sep_len (c # cs) = Some n"
  then have "0 < n"
    by (auto simp: para_sep_len_def Let_def split: if_splits)
  then show "(([], drop n (c # cs)), (acc, c # cs)) \<in> measure (\<lambda>(acc, s). length s)"
    by simp
next
  fix acc :: ustr and c cs
  show "((c # acc, cs), (acc, c # cs)) \<in> measure (\<lambda>(acc, s). length s)"
    by simp
qed

definition split_into_paragraphs :: "ustr \<Rightarrow> ustr list" where
  "split_into_paragraphs t = filter (\<lambda>p. p \<noteq> []) (map strip (re_split_paragraphs [] t))"

text \<open>
  \<open>re.split(r'([.!?\<dots>]\s*)', text)\<close> with the three ASCII marks and their full-width
  forms (U+3002, U+FF01, U+FF1F). The group is capturing, so the result alternates
  text and separator and ends with the text after the last separator.
\<close>

definition is_terminal :: "nat \<Rightarrow> bool" where
  "is_terminal c \<longleftrightarrow> c = 46 \<or> c = 33 \<or> c = 63 \<or> c = 12290 \<or> c = 65281 \<or> c = 65311"

function re_split_sentences :: "ustr \<Rightarrow> ustr \<Rightarrow> ustr list" where
  "re_split_sentences acc [] = [rev acc]"
| "re_split_sentences acc (c # cs) =
     (if is_terminal c
      then rev acc # (c # takeWhile isspace cs) # re_split_sentences [] (dropWhile isspace cs)
      else re_split_sentences (c # acc) cs)"
  by pat_completeness auto

termination re_split_sentences
  by (relation "measure (\<lambda>(acc, s). length s)")
     (auto simp: less_Suc_eq_le length_dropWhile_le)

text \<open>The loop \<open>for i in range(0, len(sentences) - 1, 2)\<close>: each text is glued to the
  separator after it, and the text after the last separator is not visited.\<close>

fun merge_sentence_parts :: "ustr list \<Rightarrow> ustr list" where
  "merge_sentence_parts (a # b # rest) = (a @ b) # merge_sentence_parts rest"
| "merge_sentence_parts _ = []"

definition split_into_sentences :: "ustr \<Rightarrow> ustr list" where
  "split_into_sentences t =
     filter (\<lambda>s. s \<noteq> []) (map strip (merge_sentence_parts (re_split_sentences [] t)))"

text \<open>
  \<open>int(overlap_tokens / 0.75)\<close>: the quotient \<open>4n/3\<close> truncated towards zero, which is
  what double precision gives for every \<open>overlap_tokens\<close> up to \<open>2^53\<close>.
  The tests \<open>p > len(overlap_text) * 0.3\<close> compare an integer with three tenths of a
  length; they are written over the integers as \<open>10 * p > 3 * len\<close>.
\<close>

definition overlap_chars_of :: "int \<Rightarrow> int" where
  "overlap_chars_of overlap_tokens =
     (if 0 \<le> overlap_tokens then (overlap_tokens * 4) div 3
      else - ((- overlap_tokens * 4) div 3))"

definition get_overlap_text :: "ustr \<Rightarrow> int \<Rightarrow> int \<Rightarrow> ustr" where
  "get_overlap_text t start_pos overlap_tokens =
     (if start_pos \<le> 0 then []
      else
        (let overlap_chars = overlap_chars_of overlap_tokens;
             overlap_start = max 0 (start_pos - overlap_chars);
             overlap_text = py_slice t overlap_start start_pos;
             para_start = py_rfind overlap_text [10, 10]
         in if 10 * para_start > 3 * int (length overlap_text)
            then strip (drop (nat (para_start + 2)) overlap_text)
            else
              (let sent_start =
                     max (py_rfind overlap_text [12290])
                    (max (py_rfind overlap_text [46])
                    (max (py_rfind overlap_text [65281])
                    (max (py_rfind overlap_text [33])
                    (max (py_rfind overlap_text [65311])
                         (py_rfind overlap_text [63])))))
               in if 10 * sent_start > 3 * int (length overlap_text)
                  then strip (drop (nat (sent_start + 1)) overlap_text)
                  else strip overlap_text)))"

definition create_chunk_dict :: "ustr \<Rightarrow> nat \<Rightarrow> ustr \<Rightarrow> int \<Rightarrow> int \<Rightarrow> int \<Rightarrow> chunk" where
  "create_chunk_dict fid idx t s e tc =
     \<lparr>chunk_id = fid @ ascii ''_chunk_'' @ str_of_nat idx, file_id = fid, chunk_index = idx,
      ctext = t, start_char = s, end_char = e, token_count = tc\<rparr>"

text \<open>The local variables of \<open>chunk_text\<close>.\<close>

record cstate =
  chunks :: "chunk list"
  current_chunk :: "ustr list"
  current_chunk_tokens :: int
  current_start :: int
  cur_index :: nat
  last_chunk_end :: int

definition init_cstate :: cstate where
  "init_cstate = \<lparr>chunks = [], current_chunk = [], current_chunk_tokens = 0,
                  current_start = 0, cur_index = 0, last_chunk_end = 0\<rparr>"

text \<open>The block that occurs three times in the loop: join the buffer, append the chunk,
  move \<open>last_chunk_end\<close> and count the chunk.\<close>

definition save_current :: "ustr \<Rightarrow> cstate \<Rightarrow> cstate" where
  "save_current fid st =
     (let chunk_text = join_nn (current_chunk st);
          chunk_dict = create_chunk_dict fid (cur_index st) chunk_text
                         (current_start st) (current_start st + int (length chunk_text))
                         (current_chunk_tokens st)
      in st\<lparr>chunks := chunks st @ [chunk_dict],
            last_chunk_end := current_start st + int (length chunk_text),
            cur_index := cur_index st + 1\<rparr>)"

text \<open>The block that seeds the new buffer with the overlap window.\<close>

definition seed_overlap :: "chunker \<Rightarrow> ustr \<Rightarrow> cstate \<Rightarrow> cstate" where
  "seed_overlap cfg t st =
     (let overlap_text = get_overlap_text t (last_chunk_end st) (overlap_size cfg)
      in st\<lparr>current_chunk := (if overlap_text \<noteq> [] then [overlap_text] else []),
            current_chunk_tokens := estimate_tokens overlap_text,
            current_start := (if overlap_text \<noteq> []
                              then last_chunk_end st - int (length overlap_text)
                              else last_chunk_end st)\<rparr>)"

definition sentence_step :: "chunker \<Rightarrow> ustr \<Rightarrow> ustr \<Rightarrow> cstate \<Rightarrow> ustr \<Rightarrow> cstate" where
  "sentence_step cfg t fid st sentence =
     (let sent_tokens = estimate_tokens sentence;
          st1 = (if current_chunk_tokens st + sent_tokens > chunk_size cfg
                    \<and> current_chunk st \<noteq> []
                 then (let st' = save_current fid st
                       in if chunks st' \<noteq> [] \<and> last_chunk_end st' > 0
                          then seed_overlap cfg t st'
                          else st'\<lparr>current_chunk := [], current_chunk_tokens := 0,
                                   current_start := last_chunk_end st'\<rparr>)
                 else st);
          st2 = st1\<lparr>current_chunk := current_chunk st1 @ [sentence],
                    current_chunk_tokens := current_chunk_tokens st1 + sent_tokens\<rparr>
      in if current_start st2 = 0
         then st2\<lparr>current_start := py_find t sentence 0\<rparr>
         else st2)"

definition para_step :: "chunker \<Rightarrow> ustr \<Rightarrow> ustr \<Rightarrow> cstate \<Rightarrow> ustr \<Rightarrow> cstate" where
  "para_step cfg t fid st para =
     (let para_tokens = estimate_tokens para
      in if para_tokens > chunk_size cfg then
           (let st1 = (if current_chunk st \<noteq> []
                       then (save_current fid st)\<lparr>current_chunk := [],
                                                  current_chunk_tokens := 0\<rparr>
                       else st)
            in foldl (sentence_step cfg t fid) st1 (split_into_sentences para))
         else if current_chunk_tokens st + para_tokens \<le> chunk_size cfg then
           (let st1 = st\<lparr>current_chunk := current_chunk st @ [para],
                         current_chunk_tokens := current_chunk_tokens st + para_tokens\<rparr>
            in if current_chunk st1 = [] \<or> current_start st1 = 0
               then st1\<lparr>current_start := py_find t para (last_chunk_end st1)\<rparr>
               else st1)
         else
           (let st1 = (if current_chunk st \<noteq> []
                       then seed_overlap cfg t (save_current fid st)
                       else st);
                st2 = st1\<lparr>current_chunk := current_chunk st1 @ [para],
                          current_chunk_tokens := current_chunk_tokens st1 + para_tokens\<rparr>
            in if current_start st2 = 0
               then st2\<lparr>current_start := py_find t para (last_chunk_end st2)\<rparr>
               else st2))"

text \<open>The state when the \<open>while\<close> loop over the paragraphs ends.\<close>

definition chunk_loop :: "chunker \<Rightarrow> ustr \<Rightarrow> ustr \<Rightarrow> cstate" where
  "chunk_loop cfg t fid = foldl (para_step cfg t fid) init_cstate (split_into_paragraphs t)"

definition chunk_text :: "chunker \<Rightarrow> ustr \<Rightarrow> ustr \<Rightarrow> chunk list" where
  "chunk_text cfg t fid =
     (let st = chunk_loop cfg t fid
      in if current_chunk st \<noteq> [] then
           (let chunk_text = join_nn (current_chunk st)
            in if estimate_tokens chunk_text \<ge> min_chunk_size cfg
               then chunks st @
                      [create_chunk_dict fid (cur_index st) chunk_text
                         (current_start st) (current_start st + int (length chunk_text))
                         (current_chunk_tokens st)]
               else chunks st)
         else chunks st)"

section \<open>core/vector_store.py\<close>

text \<open>
  The exceptions of the core modules. The three \<open>ValueError\<close>s of the vector store are
  told apart by their raise site; \<open>ReadError\<close> is whatever \<open>faiss.read_index\<close>, \<open>open\<close> or
  \<open>pickle.load\<close> raise on a file that is missing or is not what they expect, and
  \<open>BackendError\<close> whatever the FAISS search itself raises.
\<close>

datatype py_error =
    ValueError_length_mismatch
  | ValueError_dim_mismatch
  | ValueError_not_built
  | ValueError_range_step
  | ValueError_vstack_empty
  | IndexError
  | MemoryError
  | ReadError
  | BackendError

text \<open>A two-dimensional \<open>numpy\<close> array: \<open>len\<close> is the number of rows, \<open>shape[1]\<close> the
  width. The element type is left open; \<open>astype('float32')\<close> is a function \<open>f32\<close> on it.\<close>

record 'a ndarray =
  shape1 :: nat
  rows :: "'a list list"

text \<open>\<open>faiss.IndexFlatL2\<close>: the dimension and the stored vectors, in insertion order.\<close>

record 'a flat_index =
  index_d :: nat
  index_vectors :: "'a list list"

definition ntotal :: "'a flat_index \<Rightarrow> nat" where
  "ntotal ix = length (index_vectors ix)"

record 'a vector_store =
  embedding_dim :: int
  index :: "'a flat_index option"
  chunk_ids :: "ustr list"

definition new_vector_store :: "int \<Rightarrow> 'a vector_store" where
  "new_vector_store dim = \<lparr>embedding_dim = dim, index = None, chunk_ids = []\<rparr>"

definition build_index ::
  "('a \<Rightarrow> 'a) \<Rightarrow> 'a ndarray \<Rightarrow> ustr list \<Rightarrow> 'a vector_store \<Rightarrow> py_error + 'a vector_store" where
  "build_index f32 embeddings ids vs =
     (if length (rows embeddings) \<noteq> length ids then Inl ValueError_length_mismatch
      else if int (shape1 embeddings) \<noteq> embedding_dim vs then Inl ValueError_dim_mismatch
      else Inr (vs\<lparr>index := Some \<lparr>index_d = nat (embedding_dim vs),
                                    index_vectors = map (map f32) (rows embeddings)\<rparr>,
                    chunk_ids := ids\<rparr>))"

text \<open>The loop of \<open>search\<close> over the indices FAISS returned: an index below the length of
  \<open>chunk_ids\<close> is looked up (a negative one from the end, as Python does), the others are
  skipped.\<close>

fun ids_of_hits :: "ustr list \<Rightarrow> (int \<times> 'd) list \<Rightarrow> py_error + (ustr \<times> 'd) list" where
  "ids_of_hits ids [] = Inr []"
| "ids_of_hits ids ((idx, dist) # hits) =
     (if idx < int (length ids) then
        (if idx < - int (length ids) then Inl IndexError
         else (case ids_of_hits ids hits of
                 Inl e \<Rightarrow> Inl e
               | Inr r \<Rightarrow>
                   Inr ((ids ! nat (if idx < 0 then idx + int (length ids) else idx), dist) # r)))
      else ids_of_hits ids hits)"

text \<open>\<open>faiss_search ix q k\<close> stands for \<open>index.search\<close> on one query row: the indices and
  distances of the first result row, or an exception.\<close>

definition search ::
  "('a \<Rightarrow> 'a) \<Rightarrow> ('a flat_index \<Rightarrow> 'a list \<Rightarrow> int \<Rightarrow> py_error + (int \<times> 'd) list) \<Rightarrow>
   'a vector_store \<Rightarrow> 'a list \<Rightarrow> int \<Rightarrow> py_error + (ustr \<times> 'd) list" where
  "search f32 faiss_search vs query_vector k =
     (case index vs of
        None \<Rightarrow> Inl ValueError_not_built
      | Some ix \<Rightarrow>
          (case faiss_search ix (map f32 query_vector) (min k (int (length (chunk_ids vs)))) of
             Inl e \<Rightarrow> Inl e
           | Inr hits \<Rightarrow> ids_of_hits (chunk_ids vs) hits))"

text \<open>The files \<open>save\<close> writes and \<open>load\<close> reads: a path holds a serialised index or a
  pickled identifier list. The file system is a list of paths with their contents.\<close>

datatype 'a artifact = IndexFile "'a flat_index" | PickleFile "ustr list"

type_synonym 'a files = "(ustr \<times> 'a artifact) list"

definition save ::
  "'a files \<Rightarrow> ustr \<Rightarrow> ustr \<Rightarrow> 'a vector_store \<Rightarrow> 'a files \<times> py_error option" where
  "save fs index_path metadata_path vs =
     (case index vs of
        None \<Rightarrow> (fs, Some ValueError_not_built)
      | Some ix \<Rightarrow>
          (AList.update metadata_path (PickleFile (chunk_ids vs))
             (AList.update index_path (IndexFile ix) fs), None))"

text \<open>\<open>load\<close> returns the store as the call leaves it and the exception, if one was raised:
  the index is assigned before the identifier list is opened. \<open>capacity\<close> is the number of
  vectors that fit in memory; \<open>faiss.read_index\<close> raises \<open>MemoryError\<close> on a larger index.\<close>

definition load ::
  "nat \<Rightarrow> 'a files \<Rightarrow> ustr \<Rightarrow> ustr \<Rightarrow> 'a vector_store \<Rightarrow> 'a vector_store \<times> py_error option" where
  "load capacity fs index_path metadata_path vs =
     (case map_of fs index_path of
        Some (IndexFile ix) \<Rightarrow>
          if capacity < ntotal ix then (vs, Some MemoryError)
          else (case map_of fs metadata_path of
                  Some (PickleFile ids) \<Rightarrow> (vs\<lparr>index := Some ix, chunk_ids := ids\<rparr>, None)
                | _ \<Rightarrow> (vs\<lparr>index := Some ix\<rparr>, Some ReadError))
      | _ \<Rightarrow> (vs, Some ReadError))"

definition get_total_vectors :: "'a vector_store \<Rightarrow> nat" where
  "get_total_vectors vs = (case index vs of None \<Rightarrow> 0 | Some ix \<Rightarrow> ntotal ix)"

definition add_vectors ::
  "('a \<Rightarrow> 'a) \<Rightarrow> 'a ndarray \<Rightarrow> ustr list \<Rightarrow> 'a vector_store \<Rightarrow> py_error + 'a vector_store" where
  "add_vectors f32 embeddings ids vs =
     (case index vs of
        None \<Rightarrow> build_index f32 embeddings ids vs
      | Some ix \<Rightarrow>
          if length (rows embeddings) \<noteq> length ids then Inl ValueError_length_mismatch
          else if shape1 embeddings \<noteq> index_d ix then Inl BackendError
          else Inr (vs\<lparr>index := Some (ix\<lparr>index_vectors :=
                                            index_vectors ix @ map (map f32) (rows embeddings)\<rparr>),
                        chunk_ids := chunk_ids vs @ ids\<rparr>))"

section \<open>core/database.py\<close>

text \<open>
  The table \<open>chunks\<close>, its rows in storage order; \<open>chunk_id\<close> is the primary key.
  \<open>INSERT OR REPLACE\<close> deletes the row with the same key, if any, and adds the new row.
  The integer columns are unbounded here; SQLite refuses a row with an integer beyond 64
  bits, so the tables of the model include every table the code can build.
\<close>

type_synonym chunk_table = "chunk list"

definition insert_chunk :: "chunk_table \<Rightarrow> chunk \<Rightarrow> chunk_table" where
  "insert_chunk db c = filter (\<lambda>r. chunk_id r \<noteq> chunk_id c) db @ [c]"

definition insert_chunks_batch :: "chunk_table \<Rightarrow> chunk list \<Rightarrow> chunk_table" where
  "insert_chunks_batch db cs = foldl insert_chunk db cs"

definition get_chunk :: "chunk_table \<Rightarrow> ustr \<Rightarrow> chunk option" where
  "get_chunk db cid = List.find (\<lambda>r. chunk_id r = cid) db"

text \<open>\<open>SELECT \<dots> WHERE chunk_id IN (\<dots>)\<close>: each row whose key is listed, once. The rows
  come here in storage order; SQLite may answer in key order, and nothing below depends
  on the order.\<close>

definition get_chunks_by_ids :: "chunk_table \<Rightarrow> ustr list \<Rightarrow> chunk list" where
  "get_chunks_by_ids db ids =
     (if ids = [] then [] else filter (\<lambda>r. chunk_id r \<in> set ids) db)"

section \<open>core/embedder.py\<close>

text \<open>
  \<open>model_batch batch max_length normalise\<close> stands for what \<open>encode\<close> does with one batch:
  tokenizer, model, mean pooling and normalisation, giving one row per text.
\<close>

datatype texts_arg = Str ustr | StrList "ustr list"

text \<open>\<open>texts[i:i + batch_size] for i in range(0, len(texts), batch_size)\<close>, for a
  positive \<open>batch_size\<close>.\<close>

function slice_batches :: "nat \<Rightarrow> 'b list \<Rightarrow> 'b list list" where
  "slice_batches n xs =
     (if n = 0 \<or> xs = [] then [] else take n xs # slice_batches n (drop n xs))"
  by pat_completeness auto

termination slice_batches
  by (relation "measure (\<lambda>(n, xs). length xs)") auto

declare slice_batches.simps [simp del]

text \<open>\<open>range\<close> with step zero raises \<open>ValueError\<close>; with a negative step, or over no texts,
  it is empty, and \<open>np.vstack\<close> of no arrays raises \<open>ValueError\<close>.\<close>

definition encode ::
  "(ustr list \<Rightarrow> int \<Rightarrow> bool \<Rightarrow> 'a list list) \<Rightarrow> texts_arg \<Rightarrow> int \<Rightarrow> int \<Rightarrow> bool \<Rightarrow>
   py_error + 'a list list" where
  "encode model_batch texts batch_size max_length normalise =
     (let texts = (case texts of Str s \<Rightarrow> [s] | StrList l \<Rightarrow> l)
      in if batch_size = 0 then Inl ValueError_range_step
         else
           (let all_embeddings =
                  (if batch_size < 0 then []
                   else map (\<lambda>batch_texts. model_batch batch_texts max_length normalise)
                          (slice_batches (nat batch_size) texts))
            in if all_embeddings = [] then Inl ValueError_vstack_empty
               else Inr (concat all_embeddings)))"

text \<open>The instruction of \<open>encode_query\<close>, nineteen code points ending in a full-width
  colon.\<close>

definition instruction :: ustr where
  "instruction = [20026, 36825, 20010, 21477, 23376, 29983, 25104, 34920, 31034, 20197,
                  29992, 20110, 26816, 32034, 30456, 20851, 25991, 31456, 65306]"

definition encode_query ::
  "(ustr list \<Rightarrow> int \<Rightarrow> bool \<Rightarrow> 'a list list) \<Rightarrow> ustr \<Rightarrow> bool \<Rightarrow> py_error + 'a list list" where
  "encode_query model_batch query normalise =
     (let query_with_instruction = instruction @ query
      in encode model_batch (Str query_with_instruction) 32 512 normalise)"

text \<open>
  Modelled from the spec: the indexing step that embeds the chunks. Its script is not
  among the sources; the spec says that indexed chunks are encoded through
  \<open>Embedder.encode\<close> without any prefix. The chunk texts go to \<open>encode\<close> as they are, with
  the default batch size, length limit and normalisation.
\<close>

definition embed_chunks ::
  "(ustr list \<Rightarrow> int \<Rightarrow> bool \<Rightarrow> 'a list list) \<Rightarrow> chunk list \<Rightarrow> py_error + 'a list list" where
  "embed_chunks model_batch cs = encode model_batch (StrList (map ctext cs)) 32 512 True"

section \<open>core/retriever.py\<close>

text \<open>
  A retrieved chunk is the row with its distance. Distances are ordered numbers;
  \<open>infinity\<close> is the default \<open>float('inf')\<close> of the two \<open>get\<close> calls.
\<close>

definition retrieve ::
  "(ustr list \<Rightarrow> int \<Rightarrow> bool \<Rightarrow> 'a list list) \<Rightarrow> ('a \<Rightarrow> 'a) \<Rightarrow>
   ('a flat_index \<Rightarrow> 'a list \<Rightarrow> int \<Rightarrow> py_error + (int \<times> 'd) list) \<Rightarrow>
   'a vector_store \<Rightarrow> chunk_table \<Rightarrow> 'd::linorder \<Rightarrow> ustr \<Rightarrow> int \<Rightarrow>
   py_error + (chunk \<times> 'd) list" where
  "retrieve model_batch f32 faiss_search vs db infinity query k =
     (case encode_query model_batch query True of
        Inl e \<Rightarrow> Inl e
      | Inr [] \<Rightarrow> Inl IndexError
      | Inr (query_vector # _) \<Rightarrow>
          (case search f32 faiss_search vs query_vector k of
             Inl e \<Rightarrow> Inl e
           | Inr search_results \<Rightarrow>
               (let ids = map fst search_results;
                    found = get_chunks_by_ids db ids;
                    distance_map = map_of (rev search_results);
                    with_distance =
                      map (\<lambda>c. (c, case distance_map (chunk_id c) of
                                       None \<Rightarrow> infinity
                                     | Some d \<Rightarrow> d)) found
                in Inr (sort_key snd with_distance))))"

section \<open>tools/utils.py\<close>

text \<open>
  One attempt of \<open>call_llm_api\<close> posts the request, checks the status and reads the
  content out of the JSON reply. It returns the content, raises a
  \<open>requests.exceptions.RequestException\<close>, or raises some other \<open>Exception\<close>; the
  strings are what \<open>str(e)\<close> gives.
\<close>

datatype outcome = Content ustr | RequestFailed ustr | OtherFailed ustr

text \<open>The exceptions that leave \<open>call_llm_api\<close> or the thread pool. \<open>raise None\<close> is a
  \<open>TypeError\<close> in Python 3; a pool of no workers is a \<open>ValueError\<close>.\<close>

datatype exn =
    RequestException ustr
  | OtherException ustr
  | TypeError_raise_None
  | ValueError_max_workers

definition exn_str :: "exn \<Rightarrow> ustr" where
  "exn_str e =
     (case e of
        RequestException m \<Rightarrow> m
      | OtherException m \<Rightarrow> m
      | TypeError_raise_None \<Rightarrow> ascii ''exceptions must derive from BaseException''
      | ValueError_max_workers \<Rightarrow> ascii ''max_workers must be greater than 0'')"

text \<open>What the function does to the outside world, in order: the requests it posts,
  numbered by attempt, and the seconds it sleeps.\<close>

datatype event = Post nat | Sleep nat

text \<open>The body of \<open>for attempt in range(1, max_retries + 1)\<close> with the \<open>raise\<close> after it;
  the last argument is \<open>last_exception\<close>.\<close>

fun attempts ::
  "(nat \<Rightarrow> outcome) \<Rightarrow> int \<Rightarrow> nat list \<Rightarrow> exn option \<Rightarrow> (exn + ustr) \<times> event list" where
  "attempts api max_retries [] last_exception =
     (case last_exception of
        None \<Rightarrow> (Inl TypeError_raise_None, [])
      | Some e \<Rightarrow> (Inl e, []))"
| "attempts api max_retries (attempt # rest) last_exception =
     (case api attempt of
        Content s \<Rightarrow> (Inr s, [Post attempt])
      | OtherFailed m \<Rightarrow> (Inl (OtherException m), [Post attempt])
      | RequestFailed m \<Rightarrow>
          (let (r, evs) = attempts api max_retries rest (Some (RequestException m))
           in (r, Post attempt #
                    (if int attempt < max_retries then [Sleep (1 * attempt)] else []) @ evs)))"

definition call_llm_api :: "(nat \<Rightarrow> outcome) \<Rightarrow> int \<Rightarrow> (exn + ustr) \<times> event list" where
  "call_llm_api api max_retries = attempts api max_retries [1 ..< nat (max_retries + 1)] None"

text \<open>The prefixes of the two error texts, \<open>'\<dots>: '\<close> with nine and seven code points.\<close>

definition summary_error_prefix :: ustr where
  "summary_error_prefix = [29983, 25104, 24635, 32467, 26102, 20986, 38169, 58, 32]"

definition processing_error_prefix :: ustr where
  "processing_error_prefix = [22788, 29702, 26102, 20986, 38169, 58, 32]"

text \<open>
  \<open>api\<close> gives, for the user prompt, the outcome of each attempt; \<open>seconds\<close> is the time
  the clock shows when the function returns. The prompt function is called inside the
  \<open>try\<close>, so an exception of its own ends in the error text as well.
\<close>

definition generate_single_literature_summary ::
  "(ustr \<Rightarrow> nat \<Rightarrow> outcome) \<Rightarrow> 't \<Rightarrow> ustr \<Rightarrow> ustr \<Rightarrow> ustr \<Rightarrow> (ustr \<Rightarrow> ustr \<Rightarrow> exn + ustr) \<Rightarrow> int \<Rightarrow>
   ustr \<times> ustr \<times> 't" where
  "generate_single_literature_summary api seconds fid fulltext question
       get_user_prompt_func max_retries =
     (case get_user_prompt_func question fulltext of
        Inl e \<Rightarrow> (fid, summary_error_prefix @ exn_str e, seconds)
      | Inr user_prompt \<Rightarrow>
          (case fst (call_llm_api (api user_prompt) max_retries) of
             Inr summary \<Rightarrow> (fid, summary, seconds)
           | Inl e \<Rightarrow> (fid, summary_error_prefix @ exn_str e, seconds)))"

text \<open>
  The world around one batch. Tasks are numbered in submission order: \<open>respond i\<close> is
  the generation API as task \<open>i\<close> meets it, \<open>elapsed i\<close> its running time, and
  \<open>finished_at i\<close> the moment it completes; \<open>as_completed\<close> yields the futures in the
  order of these moments. \<open>format_seconds\<close> is the format \<open>.2f\<close> followed by \<open>s\<close>.
\<close>

record 't batch_env =
  respond :: "nat \<Rightarrow> ustr \<Rightarrow> nat \<Rightarrow> outcome"
  elapsed :: "nat \<Rightarrow> 't"
  finished_at :: "nat \<Rightarrow> nat"
  format_seconds :: "'t \<Rightarrow> ustr"

record summary_entry =
  entry_file_id :: ustr
  summary :: ustr
  generation_time :: ustr

text \<open>What \<open>future.result()\<close> gives for task \<open>i\<close>: the value the task function returned.
  The function catches every \<open>Exception\<close> itself, so the result is never an exception.\<close>

definition future_result ::
  "'t batch_env \<Rightarrow> ustr \<Rightarrow> (ustr \<Rightarrow> ustr \<Rightarrow> exn + ustr) \<Rightarrow> int \<Rightarrow> nat \<times> ustr \<times> ustr \<Rightarrow>
   exn + ustr \<times> ustr \<times> 't" where
  "future_result env question get_user_prompt_func max_retries task =
     (case task of
        (i, fid, fulltext) \<Rightarrow>
          Inr (generate_single_literature_summary (respond env i) (elapsed env i) fid fulltext
                 question get_user_prompt_func max_retries))"

definition collect ::
  "'t batch_env \<Rightarrow> ustr \<Rightarrow> (ustr \<Rightarrow> ustr \<Rightarrow> exn + ustr) \<Rightarrow> int \<Rightarrow> nat \<times> ustr \<times> ustr \<Rightarrow>
   summary_entry" where
  "collect env question get_user_prompt_func max_retries task =
     (case future_result env question get_user_prompt_func max_retries task of
        Inr (result_file_id, text, seconds) \<Rightarrow>
          \<lparr>entry_file_id = result_file_id, summary = text,
           generation_time = format_seconds env seconds\<rparr>
      | Inl e \<Rightarrow>
          \<lparr>entry_file_id = fst (snd task), summary = processing_error_prefix @ exn_str e,
           generation_time = ascii ''0.00s''\<rparr>)"

text \<open>The readers the servers pass as \<open>read_fulltext_func\<close> catch every exception and
  return the empty text, so the reader is a function to texts.\<close>

definition generate_literature_summaries_parallel ::
  "'t batch_env \<Rightarrow> ustr list \<Rightarrow> ustr \<Rightarrow> (ustr \<Rightarrow> ustr \<Rightarrow> exn + ustr) \<Rightarrow> (ustr \<Rightarrow> ustr) \<Rightarrow>
   int \<Rightarrow> int \<Rightarrow> exn + summary_entry list" where
  "generate_literature_summaries_parallel env file_ids question get_user_prompt_func
       read_fulltext_func max_workers max_retries =
     (let literature_data =
            filter (\<lambda>(fid, fulltext). fulltext \<noteq> [])
              (map (\<lambda>fid. (fid, read_fulltext_func fid)) file_ids)
      in if literature_data = [] then Inr []
         else if max_workers \<le> 0 then Inl ValueError_max_workers
         else
           (let futures = zip [0 ..< length literature_data] literature_data;
                completed = sort_key (\<lambda>task. finished_at env (fst task)) futures
            in Inr (map (collect env question get_user_prompt_func max_retries) completed)))"

section \<open>common/constants.py\<close>

definition SUCCESS :: int where "SUCCESS = 0"
definition NO_RESULTS :: int where "NO_RESULTS = 1"
definition NO_LITERATURE :: int where "NO_LITERATURE = 2"
definition REPORT_FAILED :: int where "REPORT_FAILED = 3"
definition OTHER_ERROR :: int where "OTHER_ERROR = 4"

section \<open>domains/chembrain/server/server.py\<close>

text \<open>
  The filters the query translation returns, by the shapes \<open>query\<close> tells apart: a
  dictionary with the key \<open>'tables'\<close>, or anything else, of which \<open>query\<close> takes the entry
  \<open>'filters'\<close> when there is one. A filter is a condition, a group
  (\<open>{'type': 2, 'groupOperator': \<dots>, 'sub': \<dots>}\<close>) or the empty dictionary.
  \<open>Malformed\<close> stands for a dictionary whose \<open>'tables'\<close> entry makes the loop over it
  raise, inside the \<open>try\<close> of \<open>query\<close>: a value that cannot be iterated, or one with an
  element that is not a dictionary. An entry with nothing to iterate over (an empty list,
  dictionary or string) runs the loop zero times and is \<open>Tables []\<close>.
\<close>

datatype 'v filter = Leaf ustr ustr 'v | Composite ustr "'v filter list" | EmptyFilter

datatype 'v table_filters = FilterList "'v filter list" | FilterObject "'v filter"

record 'v table_query =
  table_name :: "ustr option"
  filters :: "'v table_filters option"

datatype 'v query_filters =
    Tables "'v table_query list"
  | Legacy "'v filter option" "'v filter"
  | Malformed

record query_result =
  summaries :: "ustr list"
  code :: int

text \<open>A Python dictionary with string keys, in insertion order.\<close>

type_synonym 'r pydict = "(ustr \<times> 'r) list"

definition dict_update :: "'r pydict \<Rightarrow> 'r pydict \<Rightarrow> 'r pydict" where
  "dict_update d other = foldl (\<lambda>acc (k, v). AList.update k v acc) d other"

definition startswith :: "ustr \<Rightarrow> ustr \<Rightarrow> bool" where
  "startswith s p \<longleftrightarrow> take (length p) s = p"

text \<open>\<open>not filters\<close>: of the shapes above only the empty dictionary is false.\<close>

definition falsy :: "'v query_filters \<Rightarrow> bool" where
  "falsy f \<longleftrightarrow> (case f of Legacy None EmptyFilter \<Rightarrow> True | _ \<Rightarrow> False)"

text \<open>\<open>table_query.get('filters', {})\<close> and the conversion of a list of conditions.\<close>

definition table_filters_of :: "'v table_query \<Rightarrow> 'v filter" where
  "table_filters_of tq =
     (case filters tq of
        None \<Rightarrow> EmptyFilter
      | Some (FilterObject f) \<Rightarrow> f
      | Some (FilterList []) \<Rightarrow> EmptyFilter
      | Some (FilterList [f]) \<Rightarrow> f
      | Some (FilterList fs) \<Rightarrow> Composite (ascii ''and'') fs)"

definition table_name_of :: "'v table_query \<Rightarrow> ustr" where
  "table_name_of tq = (case table_name tq of None \<Rightarrow> ascii ''polym00'' | Some n \<Rightarrow> n)"

text \<open>
  The world around one query: \<open>convert_query_to_filters\<close> is the translation by the
  generation API (\<open>None\<close> when it fails), \<open>query_database\<close> the answer of the relational
  store to one table query (identifiers, row data by key, metadata by identifier; the
  method catches its own exceptions and then answers with three empty values), and
  \<open>summarize\<close> stands for steps 3 to 6, which turn the candidates into summary texts or
  raise.
\<close>

record ('v, 'r) query_env =
  convert_query_to_filters :: "ustr \<Rightarrow> 'v query_filters option"
  query_database :: "'v filter \<Rightarrow> ustr \<Rightarrow> ustr list \<times> 'r pydict \<times> 'r pydict"
  summarize :: "ustr list \<Rightarrow> 'r pydict \<Rightarrow> 'r pydict \<Rightarrow> 'r pydict \<Rightarrow> exn + ustr list"

text \<open>One round of the loop over \<open>filters['tables']\<close>.\<close>

definition table_step ::
  "('v, 'r) query_env \<Rightarrow> ustr list \<times> 'r pydict \<times> 'r pydict \<Rightarrow> 'v table_query \<Rightarrow>
   ustr list \<times> 'r pydict \<times> 'r pydict" where
  "table_step env acc table_query =
     (case acc of
        (all_dois, query_data_dict, metadata_dict) \<Rightarrow>
          (case query_database env (table_filters_of table_query) (table_name_of table_query) of
             (table_dois, table_query_data, table_metadata) \<Rightarrow>
               (all_dois @ table_dois,
                dict_update query_data_dict table_query_data,
                dict_update metadata_dict table_metadata)))"

text \<open>Step 2. \<open>list(set(all_dois))\<close> keeps one copy of each identifier, in an order Python
  does not fix; \<open>remdups\<close> is one such order.\<close>

definition run_database_queries ::
  "('v, 'r) query_env \<Rightarrow> 'v query_filters \<Rightarrow>
   exn + ustr list \<times> 'r pydict \<times> 'r pydict" where
  "run_database_queries env f =
     (case f of
        Tables table_queries \<Rightarrow>
          (case foldl (table_step env) ([], [], []) table_queries of
             (all_dois, query_data_dict, metadata_dict) \<Rightarrow>
               Inr (remdups all_dois, query_data_dict, metadata_dict))
      | Legacy inner whole \<Rightarrow>
          Inr (query_database env (case inner of Some x \<Rightarrow> x | None \<Rightarrow> whole)
                 (ascii ''polym00''))
      | Malformed \<Rightarrow> Inl (OtherException (ascii ''AttributeError'')))"

definition query :: "('v, 'r) query_env \<Rightarrow> ustr \<Rightarrow> query_result" where
  "query env query_description =
     (case convert_query_to_filters env query_description of
        None \<Rightarrow> \<lparr>summaries = [], code = OTHER_ERROR\<rparr>
      | Some f \<Rightarrow>
          if falsy f then \<lparr>summaries = [], code = OTHER_ERROR\<rparr>
          else
            (case run_database_queries env f of
               Inl e \<Rightarrow> \<lparr>summaries = [], code = OTHER_ERROR\<rparr>
             | Inr (dois, query_data_dict, metadata_dict) \<Rightarrow>
                 (let epoxy_entries =
                        filter (\<lambda>(k, v). startswith k (ascii ''epoxy_'')) query_data_dict
                  in if dois = [] \<and> epoxy_entries = []
                     then \<lparr>summaries = [], code = NO_RESULTS\<rparr>
                     else
                       (case summarize env dois query_data_dict metadata_dict epoxy_entries of
                          Inl e \<Rightarrow> \<lparr>summaries = [], code = OTHER_ERROR\<rparr>
                        | Inr summary_texts \<Rightarrow>
                            if summary_texts = []
                            then \<lparr>summaries = [], code = NO_LITERATURE\<rparr>
                            else \<lparr>summaries = summary_texts, code = SUCCESS\<rparr>))))"

section \<open>Invariants of the chunking loop\<close>

text \<open>
  What every chunk written by \<open>chunk_text\<close> satisfies: its span is as wide as its text,
  and its token count is the sum of the estimates of the pieces joined into its text.
  \<open>buffer_inv\<close> adds that the running count is the sum over the pieces in the buffer.
\<close>

definition span_ok :: "chunk \<Rightarrow> bool" where
  "span_ok c \<longleftrightarrow> end_char c - start_char c = int (length (ctext c))"

definition sum_ok :: "chunk \<Rightarrow> bool" where
  "sum_ok c \<longleftrightarrow> (\<exists>ps. ps \<noteq> [] \<and> ctext c = join_nn ps
       \<and> token_count c = sum_list (map estimate_tokens ps))"

definition buffer_inv :: "cstate \<Rightarrow> bool" where
  "buffer_inv st \<longleftrightarrow>
     (\<forall>c \<in> set (chunks st). span_ok c \<and> sum_ok c) \<and>
     current_chunk_tokens st = sum_list (map estimate_tokens (current_chunk st))"


section \<open>Notions used to state the properties\<close>

text \<open>
  For the retry loop: whether an attempt failed with a request exception, what an
  attempt that ends the loop makes \<open>call_llm_api\<close> return or raise, and the events of \<open>k\<close>
  attempts with a sleep of \<open>a\<close> seconds after attempt \<open>a\<close>.
\<close>

definition is_request_failed :: "outcome \<Rightarrow> bool" where
  "is_request_failed out = (case out of RequestFailed _ \<Rightarrow> True | _ \<Rightarrow> False)"

definition raised_or_returned :: "outcome \<Rightarrow> exn + ustr" where
  "raised_or_returned out =
     (case out of
        Content s \<Rightarrow> Inr s
      | RequestFailed m \<Rightarrow> Inl (RequestException m)
      | OtherFailed m \<Rightarrow> Inl (OtherException m))"


definition linear_backoff :: "nat \<Rightarrow> nat \<Rightarrow> event list" where
  "linear_backoff i k = concat (map (\<lambda>a. [Post a, Sleep a]) [i ..< k]) @ [Post k]"

text \<open>
  For the batch: the documents whose full text could be read, the tasks submitted for
  them, numbered from zero, and the text that the entry of a task carries.
\<close>

definition readable_documents :: "(ustr \<Rightarrow> ustr) \<Rightarrow> ustr list \<Rightarrow> (ustr \<times> ustr) list" where
  "readable_documents read_fulltext_func file_ids =
     filter (\<lambda>(fid, fulltext). fulltext \<noteq> [])
       (map (\<lambda>fid. (fid, read_fulltext_func fid)) file_ids)"

definition submitted :: "(ustr \<Rightarrow> ustr) \<Rightarrow> ustr list \<Rightarrow> (nat \<times> ustr \<times> ustr) list" where
  "submitted read_fulltext_func file_ids =
     zip [0 ..< length (readable_documents read_fulltext_func file_ids)]
       (readable_documents read_fulltext_func file_ids)"

definition summary_text ::
  "'t batch_env \<Rightarrow> ustr \<Rightarrow> (ustr \<Rightarrow> ustr \<Rightarrow> exn + ustr) \<Rightarrow> int \<Rightarrow> nat \<times> ustr \<times> ustr \<Rightarrow> ustr" where
  "summary_text env question get_user_prompt_func max_retries task =
     (case task of
        (i, fid, fulltext) \<Rightarrow>
          (case get_user_prompt_func question fulltext of
             Inl e \<Rightarrow> summary_error_prefix @ exn_str e
           | Inr user_prompt \<Rightarrow>
               (case fst (call_llm_api (respond env i user_prompt) max_retries) of
                  Inr s \<Rightarrow> s
                | Inl e \<Rightarrow> summary_error_prefix @ exn_str e)))"

text \<open>
  For the structured query: the table queries that \<open>query\<close> sends for given filters, and
  an answer of the store without identifiers and without synthetic \<open>epoxy_\<close> keys.
\<close>

definition table_queries_of :: "'v query_filters \<Rightarrow> ('v filter \<times> ustr) list" where
  "table_queries_of f =
     (case f of
        Tables table_queries \<Rightarrow>
          map (\<lambda>tq. (table_filters_of tq, table_name_of tq)) table_queries
      | Legacy inner whole \<Rightarrow>
          [(case inner of Some x \<Rightarrow> x | None \<Rightarrow> whole, ascii ''polym00'')]
      | Malformed \<Rightarrow> [])"

definition no_candidates :: "ustr list \<times> 'r pydict \<times> 'r pydict \<Rightarrow> bool" where
  "no_candidates answer =
     (case answer of
        (dois, query_data, metadata) \<Rightarrow>
          dois = [] \<and> filter (\<lambda>(k, v). startswith k (ascii ''epoxy_'')) query_data = [])"

section \<open>Example environments\<close>

text \<open>
  A generation API that always times out for task 0, answers at the third attempt for
  task 1 and fails with another exception at the second attempt for task 2; a batch in
  which the later task completes first; a store that finds nothing; an index of three
  vectors with the identifiers \<open>a\<close>, \<open>b\<close>, \<open>c\<close> and a search that returns them at the
  distances 1, 2, 3.
\<close>

definition example_respond :: "nat \<Rightarrow> ustr \<Rightarrow> nat \<Rightarrow> outcome" where
  "example_respond i user_prompt attempt =
     (if i = 0 then RequestFailed (ascii ''timeout'')
      else if i = 1 then
        (if attempt < 3 then RequestFailed (ascii ''timeout'') else Content (ascii ''ok''))
      else
        (if attempt < 2 then RequestFailed (ascii ''timeout'')
         else OtherFailed (ascii ''bad reply'')))"

definition example_batch_env :: "nat batch_env" where
  "example_batch_env =
     \<lparr>respond = example_respond, elapsed = (\<lambda>i. 7), finished_at = (\<lambda>i. 2 - i),
      format_seconds = (\<lambda>n. str_of_nat n @ ascii ''.00s'')\<rparr>"

definition example_prompt :: "ustr \<Rightarrow> ustr \<Rightarrow> exn + ustr" where
  "example_prompt question fulltext = Inr (question @ fulltext)"

definition example_read :: "ustr \<Rightarrow> ustr" where
  "example_read fid = (if fid = ascii ''c'' then [] else ascii ''full text'')"

definition example_query_env :: "(nat, nat) query_env" where
  "example_query_env =
     \<lparr>convert_query_to_filters = (\<lambda>q. Some (Tables [\<lparr>table_name = None, filters = None\<rparr>])),
      query_database = (\<lambda>flt tn. ([], [], [])),
      summarize = (\<lambda>dois qd md ep. Inr [])\<rparr>"

definition example_model :: "ustr list \<Rightarrow> int \<Rightarrow> bool \<Rightarrow> int list list" where
  "example_model batch_texts max_length normalise = map (\<lambda>t. [int (length t)]) batch_texts"

definition example_faiss :: "int flat_index \<Rightarrow> int list \<Rightarrow> int \<Rightarrow> py_error + (int \<times> int) list" where
  "example_faiss ix q k = Inr [(0, 1), (1, 2), (2, 3)]"

definition example_store :: "int vector_store" where
  "example_store =
     \<lparr>embedding_dim = 1, index = Some \<lparr>index_d = 1, index_vectors = [[0], [1], [2]]\<rparr>,
      chunk_ids = [ascii ''a'', ascii ''b'', ascii ''c'']\<rparr>"

definition example_row :: "ustr \<Rightarrow> chunk" where
  "example_row cid =
     \<lparr>chunk_id = cid, file_id = ascii ''f'', chunk_index = 0, ctext = ascii ''text'',
      start_char = 0, end_char = 4, token_count = 3\<rparr>"

section \<open>Properties of the chunker\<close>



lemma buffer_inv_init: "buffer_inv init_cstate"
  by (simp add: buffer_inv_def init_cstate_def)

lemma created_ok:
  assumes "ps \<noteq> []"
  shows "span_ok (create_chunk_dict fid i (join_nn ps) s (s + int (length (join_nn ps)))
                   (sum_list (map estimate_tokens ps)))"
    and "sum_ok (create_chunk_dict fid i (join_nn ps) s (s + int (length (join_nn ps)))
                   (sum_list (map estimate_tokens ps)))"
  using assms by (auto simp: create_chunk_dict_def span_ok_def sum_ok_def)

lemma save_current_inv:
  assumes "buffer_inv st" "current_chunk st \<noteq> []"
  shows "buffer_inv (save_current fid st)"
  using assms created_ok [of "current_chunk st" fid "cur_index st" "current_start st"]
  by (simp add: buffer_inv_def save_current_def Let_def)

lemma seed_overlap_inv: "buffer_inv st \<Longrightarrow> buffer_inv (seed_overlap cfg t st)"
  by (simp add: buffer_inv_def seed_overlap_def Let_def estimate_tokens_def)

lemma buffer_inv_reset:
  "buffer_inv st \<Longrightarrow> buffer_inv (st\<lparr>current_chunk := [], current_chunk_tokens := 0\<rparr>)"
  by (simp add: buffer_inv_def)

lemma buffer_inv_append:
  "buffer_inv st \<Longrightarrow>
   buffer_inv (st\<lparr>current_chunk := current_chunk st @ [p],
                 current_chunk_tokens := current_chunk_tokens st + estimate_tokens p\<rparr>)"
  by (simp add: buffer_inv_def)

lemma buffer_inv_start: "buffer_inv (st\<lparr>current_start := e\<rparr>) = buffer_inv st"
  by (simp add: buffer_inv_def)

lemma sentence_step_inv:
  assumes inv: "buffer_inv st"
  shows "buffer_inv (sentence_step cfg t fid st s)"
proof -
  define st1 where "st1 =
    (if current_chunk_tokens st + estimate_tokens s > chunk_size cfg \<and> current_chunk st \<noteq> []
     then (if chunks (save_current fid st) \<noteq> [] \<and> last_chunk_end (save_current fid st) > 0
           then seed_overlap cfg t (save_current fid st)
           else (save_current fid st)\<lparr>current_chunk := [], current_chunk_tokens := 0,
                       current_start := last_chunk_end (save_current fid st)\<rparr>)
     else st)"
  define st2 where "st2 = st1\<lparr>current_chunk := current_chunk st1 @ [s],
               current_chunk_tokens := current_chunk_tokens st1 + estimate_tokens s\<rparr>"
  have step: "sentence_step cfg t fid st s =
      (if current_start st2 = 0 then st2\<lparr>current_start := py_find t s 0\<rparr> else st2)"
    by (simp add: sentence_step_def Let_def st1_def st2_def)
  have "buffer_inv st1"
  proof (cases "current_chunk_tokens st + estimate_tokens s > chunk_size cfg
                \<and> current_chunk st \<noteq> []")
    case True
    then have saved: "buffer_inv (save_current fid st)"
      using inv by (simp add: save_current_inv)
    then have "buffer_inv ((save_current fid st)\<lparr>current_chunk := [],
        current_chunk_tokens := 0, current_start := e\<rparr>)" for e
      by (simp add: buffer_inv_def)
    with saved show ?thesis
      using True by (simp add: st1_def seed_overlap_inv)
  next
    case False
    then show ?thesis using inv by (auto simp: st1_def)
  qed
  then have "buffer_inv st2"
    unfolding st2_def by (rule buffer_inv_append)
  then show ?thesis
    by (simp add: step buffer_inv_start)
qed

lemma sentences_inv:
  "buffer_inv st \<Longrightarrow> buffer_inv (foldl (sentence_step cfg t fid) st ss)"
  by (induction ss arbitrary: st) (simp_all add: sentence_step_inv)

lemma para_step_inv:
  assumes inv: "buffer_inv st"
  shows "buffer_inv (para_step cfg t fid st p)"
proof -
  have saved: "buffer_inv (save_current fid st)" if "current_chunk st \<noteq> []"
    using inv that by (rule save_current_inv)
  consider (big) "estimate_tokens p > chunk_size cfg"
    | (fits) "\<not> estimate_tokens p > chunk_size cfg"
        "current_chunk_tokens st + estimate_tokens p \<le> chunk_size cfg"
    | (full) "\<not> estimate_tokens p > chunk_size cfg"
        "\<not> current_chunk_tokens st + estimate_tokens p \<le> chunk_size cfg"
    by blast
  then show ?thesis
  proof cases
    case big
    have "buffer_inv (if current_chunk st \<noteq> []
            then (save_current fid st)\<lparr>current_chunk := [], current_chunk_tokens := 0\<rparr>
            else st)"
      using inv saved by (simp add: buffer_inv_reset)
    then show ?thesis
      using big by (simp add: para_step_def Let_def sentences_inv)
  next
    case fits
    then show ?thesis
      using buffer_inv_append [OF inv, of p]
      by (simp add: para_step_def Let_def buffer_inv_start)
  next
    case full
    define st1 where "st1 = (if current_chunk st \<noteq> []
                       then seed_overlap cfg t (save_current fid st) else st)"
    have "buffer_inv st1"
      using inv saved by (simp add: st1_def seed_overlap_inv)
    then have "buffer_inv (st1\<lparr>current_chunk := current_chunk st1 @ [p],
               current_chunk_tokens := current_chunk_tokens st1 + estimate_tokens p\<rparr>)"
      by (rule buffer_inv_append)
    then show ?thesis
      using full by (simp add: para_step_def Let_def st1_def buffer_inv_start)
  qed
qed

lemma chunk_loop_inv: "buffer_inv (chunk_loop cfg t fid)"
proof -
  have "buffer_inv (foldl (para_step cfg t fid) st ps)" if "buffer_inv st" for st ps
    using that by (induction ps arbitrary: st) (simp_all add: para_step_inv)
  then show ?thesis
    by (simp add: chunk_loop_def buffer_inv_init)
qed

lemma chunk_text_wf:
  assumes "c \<in> set (chunk_text cfg t fid)"
  shows "span_ok c \<and> sum_ok c"
proof -
  let ?st = "chunk_loop cfg t fid"
  have inv: "buffer_inv ?st" by (rule chunk_loop_inv)
  from assms consider "c \<in> set (chunks ?st)"
    | "current_chunk ?st \<noteq> []" and
      "c = create_chunk_dict fid (cur_index ?st) (join_nn (current_chunk ?st))
             (current_start ?st)
             (current_start ?st + int (length (join_nn (current_chunk ?st))))
             (current_chunk_tokens ?st)"
    by (auto simp: chunk_text_def Let_def split: if_splits)
  then show ?thesis
  proof cases
    case 1
    with inv show ?thesis by (simp add: buffer_inv_def)
  next
    case 2
    with inv show ?thesis
      by (auto simp: buffer_inv_def create_chunk_dict_def span_ok_def sum_ok_def)
  qed
qed

lemma sum_estimates_le_join:
  "sum_list (map estimate_tokens ps) \<le> estimate_tokens (join_nn ps)"
  by (induction ps rule: join_nn.induct) (auto simp: estimate_tokens_def)

lemma length_join_nn:
  "length (join_nn ps) = sum_list (map length ps) + 2 * (length ps - 1)"
  by (induction ps rule: join_nn.induct) simp_all

lemma length_strip_le: "length (strip s) \<le> length s"
proof -
  have "length (strip s) \<le> length (dropWhile isspace s)"
    by (simp add: strip_def length_dropWhile_le del: rev_rev_ident)
       (metis length_dropWhile_le length_rev)
  also have "\<dots> \<le> length s" by (rule length_dropWhile_le)
  finally show ?thesis .
qed

lemma length_takeWhile_lt:
  "x \<in> set xs \<Longrightarrow> \<not> P x \<Longrightarrow> length (takeWhile P xs) < length xs"
  by (induction xs) auto

lemma re_split_paragraphs_nonempty: "re_split_paragraphs acc s \<noteq> []"
  by (induction acc s rule: re_split_paragraphs.induct) (simp_all split: option.splits)

lemma para_sep_len_bounds:
  assumes "para_sep_len s = Some n"
  shows "2 \<le> n \<and> n \<le> length s"
proof -
  from assms obtain c cs where s: "s = c # cs" and c: "c = 10"
    and mem: "10 \<in> set (takeWhile isspace cs)"
    and n: "n = Suc (length (takeWhile isspace cs)
                 - length (takeWhile (\<lambda>x. x \<noteq> 10) (rev (takeWhile isspace cs))))"
    by (auto simp: para_sep_len_def Let_def split: list.splits if_splits)
  let ?ws = "takeWhile isspace cs"
  have "10 \<in> set (rev ?ws)" using mem by simp
  then have "length (takeWhile (\<lambda>x. x \<noteq> 10) (rev ?ws)) < length (rev ?ws)"
    by (rule length_takeWhile_lt) simp
  then have lt: "length (takeWhile (\<lambda>x. x \<noteq> 10) (rev ?ws)) < length ?ws" by simp
  have "length ?ws \<le> length cs" by (rule length_takeWhile_le)
  with lt show ?thesis unfolding n s by simp arith
qed

lemma length_join_filter_strip:
  "length (join_nn (filter (\<lambda>p. p \<noteq> []) (map strip ps))) \<le> length (join_nn ps)"
proof (induction ps rule: join_nn.induct)
  case 1
  then show ?case by simp
next
  case (2 x)
  then show ?case using length_strip_le [of x] by simp
next
  case (3 x y ys)
  let ?rest = "filter (\<lambda>p. p \<noteq> []) (map strip (y # ys))"
  show ?case
  proof (cases "strip x = []")
    case True
    then show ?thesis using 3 by simp
  next
    case False
    have "length (join_nn (strip x # ?rest)) \<le> length (strip x) + 2 + length (join_nn ?rest)"
      by (cases ?rest) simp_all
    also have "\<dots> \<le> length x + 2 + length (join_nn (y # ys))"
      using 3 length_strip_le [of x] by simp
    finally show ?thesis using False by simp
  qed
qed

lemma length_join_re_split:
  "length (join_nn (re_split_paragraphs acc s)) \<le> length acc + length s"
proof (induction acc s rule: re_split_paragraphs.induct)
  case (1 acc)
  then show ?case by simp
next
  case (2 acc c cs)
  show ?case
  proof (cases "para_sep_len (c # cs)")
    case None
    with 2 show ?thesis by simp
  next
    case (Some n)
    then have n: "2 \<le> n" "n \<le> length (c # cs)"
      using para_sep_len_bounds by blast+
    have "re_split_paragraphs [] (drop n (c # cs)) \<noteq> []"
      by (rule re_split_paragraphs_nonempty)
    then obtain r rs where r: "re_split_paragraphs [] (drop n (c # cs)) = r # rs"
      by (cases "re_split_paragraphs [] (drop n (c # cs))") auto
    have "length (join_nn (r # rs)) \<le> length (c # cs) - n"
      using 2(2) [OF Some] r by simp
    then show ?thesis
      using Some r n by simp
  qed
qed

lemma length_join_paragraphs: "length (join_nn (split_into_paragraphs t)) \<le> length t"
proof -
  have "length (join_nn (split_into_paragraphs t)) \<le> length (join_nn (re_split_paragraphs [] t))"
    unfolding split_into_paragraphs_def by (rule length_join_filter_strip)
  also have "\<dots> \<le> length t"
    using length_join_re_split [of "[]" t] by simp
  finally show ?thesis .
qed

lemma estimate_tokens_mono: "length a \<le> length b \<Longrightarrow> estimate_tokens a \<le> estimate_tokens b"
  by (simp add: estimate_tokens_def zdiv_mono1)

lemma length_join_append: "length (join_nn xs) \<le> length (join_nn (xs @ ys))"
  by (simp add: length_join_nn)

lemma length_join_snoc_le: "length (join_nn (xs @ [p])) \<le> length (join_nn (xs @ p # ys))"
  using length_join_append [of "xs @ [p]" ys] by simp

lemma length_elem_le_join: "length p \<le> length (join_nn (xs @ p # ys))"
  by (simp add: length_join_nn)

lemma small_text_loop:
  assumes "chunks st = []"
    and "current_chunk_tokens st = sum_list (map estimate_tokens (current_chunk st))"
    and "estimate_tokens (join_nn (current_chunk st @ ps)) \<le> chunk_size cfg"
  shows "chunks (foldl (para_step cfg t fid) st ps) = [] \<and>
         current_chunk (foldl (para_step cfg t fid) st ps) = current_chunk st @ ps"
  using assms
proof (induction ps arbitrary: st)
  case Nil
  then show ?case by simp
next
  case (Cons p ps)
  let ?C = "chunk_size cfg"
  have whole: "estimate_tokens (join_nn (current_chunk st @ p # ps)) \<le> ?C"
    using Cons.prems(3) .
  have "estimate_tokens p \<le> estimate_tokens (join_nn (current_chunk st @ p # ps))"
    by (rule estimate_tokens_mono) (rule length_elem_le_join)
  with whole have small: "\<not> estimate_tokens p > ?C" by simp
  have "current_chunk_tokens st + estimate_tokens p
          = sum_list (map estimate_tokens (current_chunk st @ [p]))"
    using Cons.prems(2) by simp
  also have "\<dots> \<le> estimate_tokens (join_nn (current_chunk st @ [p]))"
    by (rule sum_estimates_le_join)
  also have "\<dots> \<le> estimate_tokens (join_nn (current_chunk st @ p # ps))"
    by (rule estimate_tokens_mono) (rule length_join_snoc_le)
  finally have fits: "current_chunk_tokens st + estimate_tokens p \<le> ?C"
    using whole by simp
  let ?st' = "para_step cfg t fid st p"
  have st': "chunks ?st' = []" "current_chunk ?st' = current_chunk st @ [p]"
    "current_chunk_tokens ?st' = current_chunk_tokens st + estimate_tokens p"
    using small fits Cons.prems(1) by (simp_all add: para_step_def Let_def)
  have "chunks (foldl (para_step cfg t fid) ?st' ps) = [] \<and>
        current_chunk (foldl (para_step cfg t fid) ?st' ps) = current_chunk ?st' @ ps"
  proof (rule Cons.IH)
    show "chunks ?st' = []" by (rule st')
    show "current_chunk_tokens ?st' = sum_list (map estimate_tokens (current_chunk ?st'))"
      using st' Cons.prems(2) by simp
    show "estimate_tokens (join_nn (current_chunk ?st' @ ps)) \<le> ?C"
      using whole st' by simp
  qed
  then show ?case using st' by simp
qed

lemma small_text_no_chunks:
  assumes "estimate_tokens t \<le> chunk_size cfg" and "estimate_tokens t < min_chunk_size cfg"
  shows "chunk_text cfg t fid = []"
proof -
  let ?ps = "split_into_paragraphs t"
  have le: "estimate_tokens (join_nn ?ps) \<le> estimate_tokens t"
    by (rule estimate_tokens_mono) (rule length_join_paragraphs)
  have "chunks (chunk_loop cfg t fid) = [] \<and> current_chunk (chunk_loop cfg t fid) = ?ps"
    unfolding chunk_loop_def
    using small_text_loop [of init_cstate ?ps cfg t fid] le assms(1)
    by (simp add: init_cstate_def)
  then show ?thesis
    using le assms(2) by (simp add: chunk_text_def Let_def)
qed

text \<open>
  C10. For every chunk emitted by \<open>chunk_text\<close>, for every text and every parameter
  setting, \<open>end_char - start_char\<close> equals the number of characters of the chunk's text.
\<close>

theorem chunk_span_matches_text:
  "\<forall>c \<in> set (chunk_text cfg t fid). end_char c - start_char c = int (length (ctext c))"
  using chunk_text_wf [of _ cfg t fid] by (simp add: span_ok_def)

text \<open>The three-paragraph text \<open>a\<close>, \<open>bcd\<close>, \<open>efgh\<close> with \<open>chunk_size = 5\<close> gives one chunk,
  with the span from 3 to 15 and twelve characters.\<close>

lemmas chunker_eval =
  chunk_text_def chunk_loop_def split_into_paragraphs_def para_sep_len_def strip_def
  isspace_def para_step_def sentence_step_def estimate_tokens_def init_cstate_def py_find_def
  py_rfind_def py_slice_def save_current_def seed_overlap_def get_overlap_text_def
  overlap_chars_of_def create_chunk_dict_def ascii_def Let_def split_into_sentences_def
  is_terminal_def

lemma str_of_nat_digit: "n < 10 \<Longrightarrow> str_of_nat n = [48 + n]"
  by (simp add: str_of_nat.simps)

lemma one_chunk_example:
  "chunk_text \<lparr>chunk_size = 5, overlap_size = 5, min_chunk_size = 0\<rparr>
      [97, 10, 10, 98, 99, 100, 10, 10, 101, 102, 103, 104] [102]
    = [\<lparr>chunk_id = [102, 95, 99, 104, 117, 110, 107, 95, 48], file_id = [102], chunk_index = 0,
        ctext = [97, 10, 10, 98, 99, 100, 10, 10, 101, 102, 103, 104],
        start_char = 3, end_char = 15, token_count = 5\<rparr>]"
  by (simp add: chunker_eval str_of_nat_digit)

theorem chunk_span_matches_text_witness:
  "chunk_text \<lparr>chunk_size = 5, overlap_size = 5, min_chunk_size = 0\<rparr>
      [97, 10, 10, 98, 99, 100, 10, 10, 101, 102, 103, 104] [102] \<noteq> [] \<and>
   end_char (hd (chunk_text \<lparr>chunk_size = 5, overlap_size = 5, min_chunk_size = 0\<rparr>
      [97, 10, 10, 98, 99, 100, 10, 10, 101, 102, 103, 104] [102]))
   - start_char (hd (chunk_text \<lparr>chunk_size = 5, overlap_size = 5, min_chunk_size = 0\<rparr>
      [97, 10, 10, 98, 99, 100, 10, 10, 101, 102, 103, 104] [102]))
   = int (length (ctext (hd (chunk_text \<lparr>chunk_size = 5, overlap_size = 5, min_chunk_size = 0\<rparr>
      [97, 10, 10, 98, 99, 100, 10, 10, 101, 102, 103, 104] [102]))))"
  using chunk_span_matches_text [of "\<lparr>chunk_size = 5, overlap_size = 5, min_chunk_size = 0\<rparr>"
      "[97, 10, 10, 98, 99, 100, 10, 10, 101, 102, 103, 104]" "[102]"]
  by (simp add: one_chunk_example)





text \<open>
  C2. \<open>chunk_text\<close> returns the chunks written in the loop, followed by the final buffer
  exactly when the buffer is not empty and the estimate of its joined text is at least
  \<open>min_chunk_size\<close>; otherwise the buffer is dropped. With \<open>chunk_size = 768\<close>,
  \<open>overlap_size = 120\<close> and \<open>min_chunk_size = 200\<close>, a text whose estimate is below 200
  gives no chunk.
\<close>

theorem final_buffer_needs_min_size:
  "chunk_text cfg t fid =
     chunks (chunk_loop cfg t fid) @
       (if current_chunk (chunk_loop cfg t fid) \<noteq> [] \<and>
           min_chunk_size cfg \<le> estimate_tokens (join_nn (current_chunk (chunk_loop cfg t fid)))
        then [create_chunk_dict fid (cur_index (chunk_loop cfg t fid))
                (join_nn (current_chunk (chunk_loop cfg t fid)))
                (current_start (chunk_loop cfg t fid))
                (current_start (chunk_loop cfg t fid)
                   + int (length (join_nn (current_chunk (chunk_loop cfg t fid)))))
                (current_chunk_tokens (chunk_loop cfg t fid))]
        else []) \<and>
   (estimate_tokens t < 200 \<longrightarrow>
      chunk_text \<lparr>chunk_size = 768, overlap_size = 120, min_chunk_size = 200\<rparr> t fid = [])"
proof
  show "chunk_text cfg t fid =
     chunks (chunk_loop cfg t fid) @
       (if current_chunk (chunk_loop cfg t fid) \<noteq> [] \<and>
           min_chunk_size cfg \<le> estimate_tokens (join_nn (current_chunk (chunk_loop cfg t fid)))
        then [create_chunk_dict fid (cur_index (chunk_loop cfg t fid))
                (join_nn (current_chunk (chunk_loop cfg t fid)))
                (current_start (chunk_loop cfg t fid))
                (current_start (chunk_loop cfg t fid)
                   + int (length (join_nn (current_chunk (chunk_loop cfg t fid)))))
                (current_chunk_tokens (chunk_loop cfg t fid))]
        else [])"
    by (simp add: chunk_text_def Let_def)
  show "estimate_tokens t < 200 \<longrightarrow>
      chunk_text \<lparr>chunk_size = 768, overlap_size = 120, min_chunk_size = 200\<rparr> t fid = []"
    using small_text_no_chunks
      [of t "\<lparr>chunk_size = 768, overlap_size = 120, min_chunk_size = 200\<rparr>" fid]
    by simp
qed

theorem final_buffer_needs_min_size_witness:
  "estimate_tokens (ascii ''hello world'') < 200 \<and>
   chunk_text \<lparr>chunk_size = 768, overlap_size = 120, min_chunk_size = 200\<rparr>
     (ascii ''hello world'') (ascii ''doc'') = []"
proof -
  have small: "estimate_tokens (ascii ''hello world'') < 200"
    by (simp add: estimate_tokens_def ascii_def)
  have "estimate_tokens (ascii ''hello world'') < 200 \<longrightarrow>
        chunk_text \<lparr>chunk_size = 768, overlap_size = 120, min_chunk_size = 200\<rparr>
          (ascii ''hello world'') (ascii ''doc'') = []"
    by (rule conjunct2 [OF final_buffer_needs_min_size
          [of "\<lparr>chunk_size = 768, overlap_size = 120, min_chunk_size = 200\<rparr>"
              "ascii ''hello world''" "ascii ''doc''"]])
  with small show ?thesis by simp
qed

section \<open>Properties of the vector store\<close>

text \<open>What \<open>load\<close> does with two files it can read: it installs both as they are and
  never compares their lengths.\<close>

lemma load_installs_artifacts:
  assumes "map_of fs index_path = Some (IndexFile ix)"
    and "map_of fs metadata_path = Some (PickleFile ids)"
    and "ntotal ix \<le> capacity"
  shows "load capacity fs index_path metadata_path vs
           = (vs\<lparr>index := Some ix, chunk_ids := ids\<rparr>, None)"
  using assms by (simp add: load_def)

text \<open>
  C1. The claim asks \<open>load\<close> to fail on a vector file and an identifier list of different
  lengths. The code does not: \<open>chunk_ids\<close> is documented as one-to-one with the vectors of
  the index, and \<open>build_index\<close> and \<open>add_vectors\<close> raise on such a pair, but \<open>load\<close> of a
  file with two vectors and an identifier list with one entry raises nothing and leaves
  the store with two vectors and one identifier.
\<close>

theorem load_accepts_mismatched_pair:
  "load 10 [(ascii ''i'', IndexFile \<lparr>index_d = 1, index_vectors = [[0::int], [1]]\<rparr>),
            (ascii ''m'', PickleFile [ascii ''a''])] (ascii ''i'') (ascii ''m'') (new_vector_store 1)
     = (\<lparr>embedding_dim = 1, index = Some \<lparr>index_d = 1, index_vectors = [[0::int], [1]]\<rparr>,
          chunk_ids = [ascii ''a'']\<rparr>, None) \<and>
   get_total_vectors \<lparr>embedding_dim = 1,
       index = Some \<lparr>index_d = 1, index_vectors = [[0::int], [1]]\<rparr>,
       chunk_ids = [ascii ''a'']\<rparr> = 2 \<and>
   length (chunk_ids \<lparr>embedding_dim = 1,
       index = Some \<lparr>index_d = 1, index_vectors = [[0::int], [1]]\<rparr>,
       chunk_ids = [ascii ''a'']\<rparr>) = 1 \<and>
   build_index id \<lparr>shape1 = 1, rows = [[0::int], [1]]\<rparr> [ascii ''a''] (new_vector_store 1)
     = Inl ValueError_length_mismatch"
  by (simp add: load_def build_index_def get_total_vectors_def ascii_def ntotal_def
        new_vector_store_def)

text \<open>
  C8. \<open>build_index\<close> raises its \<open>ValueError\<close> whenever the number of vectors differs from
  the number of identifiers or the width of the vectors differs from \<open>embedding_dim\<close>;
  otherwise it succeeds, and the store then holds a fresh index with exactly the given
  vectors (cast to \<open>float32\<close>) in the given order, and the given identifiers, whatever it
  held before.
\<close>

theorem build_index_checks_and_replaces:
  "(length (rows embeddings) \<noteq> length ids \<or> int (shape1 embeddings) \<noteq> embedding_dim vs
      \<longrightarrow> build_index f32 embeddings ids vs \<in> {Inl ValueError_length_mismatch, Inl ValueError_dim_mismatch}) \<and>
   (length (rows embeddings) = length ids \<and> int (shape1 embeddings) = embedding_dim vs
      \<longrightarrow> (\<exists>vs'. build_index f32 embeddings ids vs = Inr vs' \<and>
            index vs' = Some \<lparr>index_d = shape1 embeddings,
                               index_vectors = map (map f32) (rows embeddings)\<rparr> \<and>
            chunk_ids vs' = ids \<and>
            get_total_vectors vs' = length ids \<and>
            embedding_dim vs' = embedding_dim vs))"
  by (auto simp: build_index_def get_total_vectors_def ntotal_def)

theorem build_index_checks_and_replaces_witness:
  "build_index id \<lparr>shape1 = 2, rows = [[1, 2], [3, 4 :: int]]\<rparr> [ascii ''a''] (new_vector_store 2)
     \<in> {Inl ValueError_length_mismatch, Inl ValueError_dim_mismatch} \<and>
   build_index id \<lparr>shape1 = 2, rows = [[1, 2], [3, 4 :: int]]\<rparr> [ascii ''a'', ascii ''b'']
       (new_vector_store 3)
     \<in> {Inl ValueError_length_mismatch, Inl ValueError_dim_mismatch} \<and>
   build_index id \<lparr>shape1 = 2, rows = [[1, 2], [3, 4 :: int]]\<rparr> [ascii ''a'', ascii ''b'']
       (new_vector_store 2)
     = Inr \<lparr>embedding_dim = 2,
            index = Some \<lparr>index_d = 2, index_vectors = [[1, 2], [3, 4]]\<rparr>,
            chunk_ids = [ascii ''a'', ascii ''b'']\<rparr>"
  using build_index_checks_and_replaces
          [of "\<lparr>shape1 = 2, rows = [[1, 2], [3, 4 :: int]]\<rparr>" "[ascii ''a'']"
              "new_vector_store 2" id]
        build_index_checks_and_replaces
          [of "\<lparr>shape1 = 2, rows = [[1, 2], [3, 4 :: int]]\<rparr>" "[ascii ''a'', ascii ''b'']"
              "new_vector_store 3" id]
        build_index_checks_and_replaces
          [of "\<lparr>shape1 = 2, rows = [[1, 2], [3, 4 :: int]]\<rparr>" "[ascii ''a'', ascii ''b'']"
              "new_vector_store 2" id]
  by (auto simp: new_vector_store_def)

section \<open>Properties of the embedder\<close>

lemma concat_slice_batches: "0 < n \<Longrightarrow> concat (slice_batches n xs) = xs"
proof (induction n xs rule: slice_batches.induct)
  case (1 n xs)
  then show ?case by (subst slice_batches.simps) auto
qed

lemma slice_batches_empty_iff: "0 < n \<Longrightarrow> slice_batches n xs = [] \<longleftrightarrow> xs = []"
  by (subst slice_batches.simps) simp

lemma slice_batches_single: "xs \<noteq> [] \<Longrightarrow> length xs \<le> n \<Longrightarrow> slice_batches n xs = [xs]"
proof -
  assume "xs \<noteq> []" "length xs \<le> n"
  then have "0 < n" by (cases xs) auto
  with \<open>xs \<noteq> []\<close> \<open>length xs \<le> n\<close> show ?thesis
    by (subst slice_batches.simps, subst slice_batches.simps) simp
qed

text \<open>
  C9. \<open>encode_query(q)\<close> is \<open>encode\<close> applied to the instruction followed by \<open>q\<close>, which is
  the model applied to that one text and is never \<open>q\<close> itself; \<open>encode\<close> of a text hands
  the model the text as it is, and the chunk texts are embedded as they are: the batches
  given to the model are slices of the list of chunk texts.
\<close>

theorem query_prefixed_chunks_plain:
  "encode_query model_batch q normalise
     = encode model_batch (Str (instruction @ q)) 32 512 normalise \<and>
   encode_query model_batch q normalise
     = Inr (model_batch [instruction @ q] 512 normalise) \<and>
   instruction @ q \<noteq> q \<and>
   encode model_batch (Str s) 32 512 normalise = Inr (model_batch [s] 512 normalise) \<and>
   embed_chunks model_batch cs =
     (if cs = [] then Inl ValueError_vstack_empty
      else Inr (concat (map (\<lambda>batch_texts. model_batch batch_texts 512 True)
                          (slice_batches 32 (map ctext cs))))) \<and>
   concat (slice_batches 32 (map ctext cs)) = map ctext cs"
  by (simp add: encode_query_def encode_def embed_chunks_def slice_batches_single
        concat_slice_batches slice_batches_empty_iff instruction_def)

section \<open>Properties of the retry loop and the batch\<close>


lemma attempts_upt:
  assumes "i \<le> k" and "int k \<le> m"
    and "\<forall>a. i \<le> a \<and> a < k \<longrightarrow> is_request_failed (api a)"
    and "\<not> is_request_failed (api k) \<or> int k = m"
  shows "attempts api m [i ..< nat (m + 1)] prev = (raised_or_returned (api k), linear_backoff i k)"
  using assms
proof (induction "k - i" arbitrary: i prev)
  case 0
  then have ik: "i = k" by simp
  have upt: "[k ..< nat (m + 1)] = k # [Suc k ..< nat (m + 1)]"
    using 0(3) by (simp add: upt_conv_Cons)
  show ?case
  proof (cases "api k")
    case (Content s)
    then show ?thesis
      by (simp add: ik upt raised_or_returned_def linear_backoff_def)
  next
    case (OtherFailed e)
    then show ?thesis
      by (simp add: ik upt raised_or_returned_def linear_backoff_def)
  next
    case (RequestFailed e)
    then have "int k = m" using 0(5) by (simp add: is_request_failed_def)
    then have "[Suc k ..< nat (m + 1)] = []" by auto
    then show ?thesis
      using RequestFailed \<open>int k = m\<close>
      by (simp add: ik upt raised_or_returned_def linear_backoff_def)
  qed
next
  case (Suc d)
  then have lt: "i < k" by simp
  then have upt: "[i ..< nat (m + 1)] = i # [Suc i ..< nat (m + 1)]"
    using Suc.prems(2) by (simp add: upt_conv_Cons)
  from Suc.prems(3) lt obtain e where e: "api i = RequestFailed e"
    by (cases "api i") (auto simp: is_request_failed_def)
  have IH: "attempts api m [Suc i ..< nat (m + 1)] (Some (RequestException e))
            = (raised_or_returned (api k), linear_backoff (Suc i) k)"
  proof (rule Suc.hyps(1))
    show "d = k - Suc i" using Suc.hyps(2) by simp
    show "Suc i \<le> k" using lt by simp
    show "int k \<le> m" by (rule Suc.prems(2))
    show "\<forall>a. Suc i \<le> a \<and> a < k \<longrightarrow> is_request_failed (api a)"
      using Suc.prems(3) by simp
    show "\<not> is_request_failed (api k) \<or> int k = m" by (rule Suc.prems(4))
  qed
  have "int i < m" using lt Suc.prems(2) by simp
  moreover have "linear_backoff i k = Post i # Sleep i # linear_backoff (Suc i) k"
    using lt by (simp add: linear_backoff_def upt_conv_Cons)
  ultimately show ?case
    by (simp add: upt e IH)
qed


lemma upt_examples: "[Suc 0 ..< 4] = [Suc 0, 2, 3]" "[Suc 0 ..< 3] = [Suc 0, 2]" "[Suc 0 ..< 2] = [Suc 0]"
  by (simp_all add: upt_rec)


lemma collect_entry:
  "entry_file_id (collect env question gp m task) = fst (snd task) \<and>
   summary (collect env question gp m task) = summary_text env question gp m task"
  by (cases task)
     (auto simp: collect_def future_result_def generate_single_literature_summary_def
        summary_text_def split: sum.splits)

lemma exhausted_call:
  assumes "1 \<le> m"
    and "\<forall>a. 1 \<le> a \<and> int a \<le> m \<longrightarrow> is_request_failed (api a)"
    and "api (nat m) = RequestFailed msg"
  shows "fst (call_llm_api api m) = Inl (RequestException msg)"
proof -
  have "attempts api m [1 ..< nat (m + 1)] None
          = (raised_or_returned (api (nat m)), linear_backoff 1 (nat m))"
    using assms by (intro attempts_upt) auto
  then show ?thesis
    using assms(3) by (simp add: call_llm_api_def raised_or_returned_def)
qed

text \<open>
  C4. With a pool of at least one worker, \<open>generate_literature_summaries_parallel\<close>
  returns and does not raise; it returns one entry for each document whose full text
  could be read, carrying that document's identifier and its own summary text; and a
  document whose generation call fails with request exceptions at all \<open>max_retries\<close>
  attempts has an entry whose text is the error prefix followed by the message of the
  last exception.
\<close>

theorem batch_survives_failed_document:
  assumes "0 < max_workers"
  shows "\<exists>entries.
     generate_literature_summaries_parallel env file_ids question gp read_fulltext_func
         max_workers m = Inr entries \<and>
     mset (map (\<lambda>entry. (entry_file_id entry, summary entry)) entries)
       = mset (map (\<lambda>task. (fst (snd task), summary_text env question gp m task))
                (submitted read_fulltext_func file_ids)) \<and>
     (\<forall>i fid fulltext user_prompt msg.
        (i, fid, fulltext) \<in> set (submitted read_fulltext_func file_ids) \<and>
        gp question fulltext = Inr user_prompt \<and> 1 \<le> m \<and>
        (\<forall>a. 1 \<le> a \<and> int a \<le> m \<longrightarrow> is_request_failed (respond env i user_prompt a)) \<and>
        respond env i user_prompt (nat m) = RequestFailed msg
        \<longrightarrow> (\<exists>entry \<in> set entries.
               entry_file_id entry = fid \<and> summary entry = summary_error_prefix @ msg))"
proof -
  let ?tasks = "submitted read_fulltext_func file_ids"
  let ?done = "sort_key (\<lambda>task. finished_at env (fst task)) ?tasks"
  let ?entries = "map (collect env question gp m) ?done"
  have run: "generate_literature_summaries_parallel env file_ids question gp read_fulltext_func
         max_workers m = Inr ?entries"
    using assms
    by (simp add: generate_literature_summaries_parallel_def Let_def submitted_def
          readable_documents_def)
  have "map (\<lambda>entry. (entry_file_id entry, summary entry)) ?entries
          = map (\<lambda>task. (fst (snd task), summary_text env question gp m task)) ?done"
    by (simp add: collect_entry)
  then have all: "mset (map (\<lambda>entry. (entry_file_id entry, summary entry)) ?entries)
       = mset (map (\<lambda>task. (fst (snd task), summary_text env question gp m task)) ?tasks)"
    by (simp del: map_map)
  have failed: "\<exists>entry \<in> set ?entries.
          entry_file_id entry = fid \<and> summary entry = summary_error_prefix @ msg"
    if task: "(i, fid, fulltext) \<in> set ?tasks"
      and prompt: "gp question fulltext = Inr user_prompt"
      and m: "1 \<le> m"
      and fails: "\<forall>a. 1 \<le> a \<and> int a \<le> m \<longrightarrow> is_request_failed (respond env i user_prompt a)"
      and lst: "respond env i user_prompt (nat m) = RequestFailed msg"
    for i fid fulltext user_prompt msg
  proof -
    have "fst (call_llm_api (respond env i user_prompt) m) = Inl (RequestException msg)"
      using m fails lst by (rule exhausted_call)
    then have "summary_text env question gp m (i, fid, fulltext) = summary_error_prefix @ msg"
      using prompt by (simp add: summary_text_def exn_str_def)
    moreover have "collect env question gp m (i, fid, fulltext) \<in> set ?entries"
      using task by simp
    ultimately show ?thesis
      using collect_entry [of env question gp m "(i, fid, fulltext)"] by force
  qed
  show ?thesis
    using run all failed by blast
qed

theorem batch_survives_failed_document_witness:
  "generate_literature_summaries_parallel example_batch_env
      [ascii ''a'', ascii ''b'', ascii ''c''] (ascii ''q'') example_prompt example_read 20 3
     = Inr [\<lparr>entry_file_id = ascii ''b'', summary = ascii ''ok'',
             generation_time = ascii ''7.00s''\<rparr>,
            \<lparr>entry_file_id = ascii ''a'', summary = summary_error_prefix @ ascii ''timeout'',
             generation_time = ascii ''7.00s''\<rparr>]"
proof -
  have c0: "fst (call_llm_api (example_respond 0 p) 3) = Inl (RequestException (ascii ''timeout''))" for p
    by (simp add: call_llm_api_def upt_examples example_respond_def)
  have c1: "fst (call_llm_api (example_respond (Suc 0) p) 3) = Inr (ascii ''ok'')" for p
    by (simp add: call_llm_api_def upt_examples example_respond_def)
  have run: "generate_literature_summaries_parallel example_batch_env
      [ascii ''a'', ascii ''b'', ascii ''c''] (ascii ''q'') example_prompt example_read 20 3
     = Inr [\<lparr>entry_file_id = ascii ''b'', summary = ascii ''ok'',
             generation_time = ascii ''7.00s''\<rparr>,
            \<lparr>entry_file_id = ascii ''a'', summary = summary_error_prefix @ ascii ''timeout'',
             generation_time = ascii ''7.00s''\<rparr>]"
    by (simp add: generate_literature_summaries_parallel_def example_read_def
          example_batch_env_def collect_def future_result_def
          generate_single_literature_summary_def example_prompt_def c0 c1 exn_str_def
          str_of_nat.simps [of 7] ascii_def upt_rec)
  from batch_survives_failed_document [of 20 example_batch_env
        "[ascii ''a'', ascii ''b'', ascii ''c'']" "ascii ''q''" example_prompt example_read 3]
  obtain entries where "generate_literature_summaries_parallel example_batch_env
      [ascii ''a'', ascii ''b'', ascii ''c''] (ascii ''q'') example_prompt example_read 20 3
     = Inr entries"
    by auto
  with run show ?thesis by simp
qed

section \<open>Properties of the structured query\<close>

lemma keys_dict_update: "fst ` set (dict_update d other) = fst ` set d \<union> fst ` set other"
proof -
  have "fst ` set (foldl (\<lambda>acc (k, v). AList.update k v acc) d other)
          = fst ` set d \<union> fst ` set other"
  proof (induction other arbitrary: d)
    case Nil
    then show ?case by simp
  next
    case (Cons x other)
    obtain k v where x: "x = (k, v)" by (cases x)
    have "fst ` set (foldl (\<lambda>acc (k, v). AList.update k v acc) (AList.update k v d) other)
            = fst ` set (AList.update k v d) \<union> fst ` set other"
      by (rule Cons.IH)
    also have "fst ` set (AList.update k v d) = insert k (fst ` set d)"
      by (simp add: dom_update)
    finally show ?case by (simp add: x)
  qed
  then show ?thesis by (simp add: dict_update_def)
qed

lemma no_key_filter:
  "filter (\<lambda>(k, v). P k) d = [] \<longleftrightarrow> (\<forall>k \<in> fst ` set d. \<not> P k)"
  by (auto simp: filter_empty_conv)

lemma no_key_dict_update:
  assumes "filter (\<lambda>(k, v). P k) d = []" and "filter (\<lambda>(k, v). P k) other = []"
  shows "filter (\<lambda>(k, v). P k) (dict_update d other) = []"
  using assms unfolding no_key_filter keys_dict_update by blast

lemma table_loop_no_candidates:
  assumes "\<forall>tq \<in> set tqs.
             no_candidates (query_database env (table_filters_of tq) (table_name_of tq))"
    and "fst acc = []"
    and "filter (\<lambda>(k, v). startswith k (ascii ''epoxy_'')) (fst (snd acc)) = []"
  shows "fst (foldl (table_step env) acc tqs) = [] \<and>
         filter (\<lambda>(k, v). startswith k (ascii ''epoxy_''))
           (fst (snd (foldl (table_step env) acc tqs))) = []"
  using assms
proof (induction tqs arbitrary: acc)
  case Nil
  then show ?case by simp
next
  case (Cons tq tqs)
  obtain a qd md where acc: "acc = (a, qd, md)" by (cases acc)
  obtain td tqd tmd where
    ans: "query_database env (table_filters_of tq) (table_name_of tq) = (td, tqd, tmd)"
    by (cases "query_database env (table_filters_of tq) (table_name_of tq)")
  have "no_candidates (td, tqd, tmd)" using Cons.prems(1) ans by simp
  then have td: "td = []"
    and tqd: "filter (\<lambda>(k, v). startswith k (ascii ''epoxy_'')) tqd = []"
    by (simp_all add: no_candidates_def)
  have step: "table_step env acc tq = (a @ td, dict_update qd tqd, dict_update md tmd)"
    by (simp add: table_step_def acc ans)
  show ?case
  proof (simp only: foldl_Cons, rule Cons.IH)
    show "\<forall>tq \<in> set tqs.
            no_candidates (query_database env (table_filters_of tq) (table_name_of tq))"
      using Cons.prems(1) by simp
    show "fst (table_step env acc tq) = []"
      using Cons.prems(2) td unfolding step by (simp add: acc)
    show "filter (\<lambda>(k, v). startswith k (ascii ''epoxy_''))
            (fst (snd (table_step env acc tq))) = []"
      using Cons.prems(3) tqd unfolding step by (simp add: acc no_key_dict_update)
  qed
qed

lemma run_database_queries_no_candidates:
  assumes "\<forall>(flt, tn) \<in> set (table_queries_of f). no_candidates (query_database env flt tn)"
    and "f \<noteq> Malformed"
  shows "\<exists>answer. run_database_queries env f = Inr answer \<and> no_candidates answer"
proof (cases f)
  case (Tables tqs)
  have "\<forall>tq \<in> set tqs.
          no_candidates (query_database env (table_filters_of tq) (table_name_of tq))"
    using assms(1) Tables by (simp add: table_queries_of_def)
  then have "fst (foldl (table_step env) ([], [], []) tqs) = [] \<and>
         filter (\<lambda>(k, v). startswith k (ascii ''epoxy_''))
           (fst (snd (foldl (table_step env) ([], [], []) tqs))) = []"
    by (rule table_loop_no_candidates) simp_all
  then show ?thesis
    by (cases "foldl (table_step env) ([], [], []) tqs")
       (simp add: Tables run_database_queries_def no_candidates_def)
next
  case (Legacy inner whole)
  then show ?thesis
    using assms(1) by (simp add: table_queries_of_def run_database_queries_def)
next
  case Malformed
  then show ?thesis using assms(2) by simp
qed

text \<open>
  C7. When the translation gives filters of a shape the loop accepts and every table
  query sent for them comes back without identifiers and without synthetic \<open>epoxy_\<close>
  keys, \<open>query\<close> returns no summaries and the code \<open>NO_RESULTS\<close>, which is 1.
\<close>

theorem empty_candidates_give_no_results:
  assumes "convert_query_to_filters env query_description = Some f"
    and "\<not> falsy f"
    and "f \<noteq> Malformed"
    and "\<forall>(flt, tn) \<in> set (table_queries_of f). no_candidates (query_database env flt tn)"
  shows "query env query_description = \<lparr>summaries = [], code = NO_RESULTS\<rparr> \<and> NO_RESULTS = 1"
proof -
  obtain answer where run: "run_database_queries env f = Inr answer"
    and none: "no_candidates answer"
    using run_database_queries_no_candidates [OF assms(4,3)] by blast
  obtain dois qd md where answer: "answer = (dois, qd, md)" by (cases answer)
  show ?thesis
    using assms(1,2) run none
    by (simp add: query_def answer no_candidates_def NO_RESULTS_def)
qed

theorem empty_candidates_give_no_results_witness:
  "query example_query_env (ascii ''polyimide'') = \<lparr>summaries = [], code = 1\<rparr>"
  using empty_candidates_give_no_results
    [of example_query_env "ascii ''polyimide''" "Tables [\<lparr>table_name = None, filters = None\<rparr>]"]
  by (simp add: example_query_env_def falsy_def table_queries_of_def no_candidates_def
        NO_RESULTS_def)

section \<open>Properties of the retriever\<close>

lemma insert_chunk_distinct:
  "distinct (map chunk_id db) \<Longrightarrow> distinct (map chunk_id (insert_chunk db c))"
  by (auto simp: insert_chunk_def distinct_map_filter)

lemma insert_chunks_batch_distinct:
  "distinct (map chunk_id db) \<Longrightarrow> distinct (map chunk_id (insert_chunks_batch db cs))"
  unfolding insert_chunks_batch_def
  by (induction cs arbitrary: db) (simp_all add: insert_chunk_distinct)

lemma distinct_map_sort_key: "distinct (map f (sort_key k xs)) = distinct (map f xs)"
proof -
  have "mset (map f (sort_key k xs)) = mset (map f xs)" by simp
  then show ?thesis by (rule mset_eq_imp_distinct_iff)
qed

lemma image_of_selected: "f ` {c \<in> A. f c \<in> B} = B \<inter> f ` A"
  by auto

lemma map_of_rev_mem: "map_of (rev xs) k = Some v \<Longrightarrow> (k, v) \<in> set xs"
proof -
  assume "map_of (rev xs) k = Some v"
  then have "(k, v) \<in> set (rev xs)" by (rule map_of_SomeD)
  then show ?thesis by simp
qed

lemma map_of_rev_defined: "k \<in> fst ` set xs \<Longrightarrow> \<exists>v. map_of (rev xs) k = Some v"
  by (cases "map_of (rev xs) k") (simp_all add: map_of_eq_None_iff)

text \<open>
  C6. For every query and every \<open>k\<close> for which the query is encoded and the vector search
  answers, \<open>retrieve\<close> returns a list without two entries of the same chunk identifier,
  sorted non-decreasing by distance; its identifiers are those of the search results
  that have a row in the chunk table, each with a distance the search gave it, and the
  identifiers without a row are left out without any error.
\<close>

theorem retrieve_distinct_sorted_drops_missing:
  assumes "encode_query model_batch q True = Inr (query_vector # others)"
    and "search f32 faiss_search vs query_vector k = Inr search_results"
  shows "\<exists>res.
     retrieve model_batch f32 faiss_search vs (insert_chunks_batch [] stored) infinity q k
       = Inr res \<and>
     distinct (map (chunk_id \<circ> fst) res) \<and>
     sorted (map snd res) \<and>
     set (map (chunk_id \<circ> fst) res)
       = set (map fst search_results) \<inter> chunk_id ` set (insert_chunks_batch [] stored) \<and>
     (\<forall>(c, d) \<in> set res.
        c \<in> set (insert_chunks_batch [] stored) \<and> (chunk_id c, d) \<in> set search_results)"
proof -
  let ?db = "insert_chunks_batch [] stored"
  let ?found = "get_chunks_by_ids ?db (map fst search_results)"
  let ?dist = "\<lambda>c. case map_of (rev search_results) (chunk_id c) of
                     None \<Rightarrow> infinity | Some d \<Rightarrow> d"
  let ?res = "sort_key snd (map (\<lambda>c. (c, ?dist c)) ?found)"
  have run: "retrieve model_batch f32 faiss_search vs ?db infinity q k = Inr ?res"
    using assms by (simp add: retrieve_def Let_def)
  have keys: "distinct (map chunk_id ?db)"
    by (rule insert_chunks_batch_distinct) simp
  have found: "set ?found = {c \<in> set ?db. chunk_id c \<in> fst ` set search_results}"
    by (auto simp: get_chunks_by_ids_def)
  have "distinct (map chunk_id ?found)"
    using keys by (simp add: get_chunks_by_ids_def distinct_map_filter)
  then have "distinct (map (chunk_id \<circ> fst) (map (\<lambda>c. (c, ?dist c)) ?found))"
    by (simp add: comp_def)
  then have d: "distinct (map (chunk_id \<circ> fst) ?res)"
    by (simp only: distinct_map_sort_key)
  have s: "sorted (map snd ?res)" by (rule sorted_sort_key)
  have ids: "set (map (chunk_id \<circ> fst) ?res) = set (map fst search_results) \<inter> chunk_id ` set ?db"
  proof -
    have "set (map (chunk_id \<circ> fst) ?res) = chunk_id ` set ?found"
      by (simp add: image_image)
    also have "\<dots> = chunk_id ` {c \<in> set ?db. chunk_id c \<in> fst ` set search_results}"
      by (simp only: found)
    also have "\<dots> = fst ` set search_results \<inter> chunk_id ` set ?db"
      by (rule image_of_selected)
    finally show ?thesis by simp
  qed
  have att: "\<forall>(c, d) \<in> set ?res. c \<in> set ?db \<and> (chunk_id c, d) \<in> set search_results"
  proof -
    have "c \<in> set ?db \<and> (chunk_id c, ?dist c) \<in> set search_results"
      if "c \<in> set ?found" for c
    proof -
      from that have c: "c \<in> set ?db" "chunk_id c \<in> fst ` set search_results"
        unfolding found by simp_all
      then obtain v where "map_of (rev search_results) (chunk_id c) = Some v"
        using map_of_rev_defined [of "chunk_id c" search_results] by blast
      then have "(chunk_id c, ?dist c) \<in> set search_results"
        by (simp add: map_of_rev_mem)
      with c(1) show ?thesis by simp
    qed
    moreover have "set ?res = (\<lambda>c. (c, ?dist c)) ` set ?found"
      by simp
    ultimately show ?thesis by (simp only: ball_simps split_conv) simp
  qed
  show ?thesis
    by (intro exI [of _ ?res] conjI) (fact run d s ids att)+
qed

theorem retrieve_distinct_sorted_drops_missing_witness:
  "retrieve example_model id example_faiss example_store
      (insert_chunks_batch [] [example_row (ascii ''c''), example_row (ascii ''a'')])
      1000 (ascii ''glass'') 3
     = Inr [(example_row (ascii ''a''), 1), (example_row (ascii ''c''), 3)]"
proof -
  have enc: "encode_query example_model (ascii ''glass'') True = Inr ([24] # [])"
    by (simp add: encode_query_def encode_def slice_batches_single example_model_def
          instruction_def ascii_def)
  have srch: "search id example_faiss example_store [24] 3
     = Inr [(ascii ''a'', 1), (ascii ''b'', 2), (ascii ''c'', 3)]"
    by (simp add: search_def example_store_def example_faiss_def)
  have db: "insert_chunks_batch [] [example_row (ascii ''c''), example_row (ascii ''a'')]
              = [example_row (ascii ''c''), example_row (ascii ''a'')]"
    by (simp add: insert_chunks_batch_def insert_chunk_def example_row_def ascii_def)
  from retrieve_distinct_sorted_drops_missing [OF enc srch,
        of "[example_row (ascii ''c''), example_row (ascii ''a'')]" 1000]
  obtain res where res: "retrieve example_model id example_faiss example_store
      (insert_chunks_batch [] [example_row (ascii ''c''), example_row (ascii ''a'')])
      1000 (ascii ''glass'') 3 = Inr res"
    by blast
  moreover have "retrieve example_model id example_faiss example_store
      [example_row (ascii ''c''), example_row (ascii ''a'')] 1000 (ascii ''glass'') 3
     = Inr [(example_row (ascii ''a''), 1), (example_row (ascii ''c''), 3)]"
    apply (simp add: retrieve_def enc srch)
    apply (simp add: get_chunks_by_ids_def example_row_def ascii_def)
    done
  ultimately show ?thesis by (simp add: db)
qed

end
